theory Spec2Isabelle
  imports Main "HOL-Library.Char_ord" "HOL-Library.List_Lexorder" "HOL-Library.Sublist"
    "HOL-Library.AList"
begin

section \<open>Python values used by lightrag/kg/networkx\_impl.py\<close>

text \<open>
  A Python \<open>str\<close> is a \<^typ>\<open>string\<close> holding its UTF-8 bytes: the lexicographic order of
  \<^theory_text>\<open>List_Lexorder\<close> over the byte order of \<^theory_text>\<open>Char_ord\<close> is Python's code point
  order, and a byte substring of well-formed UTF-8 is a code point substring.

  A Python \<open>dict\<close> keeps its keys in insertion order, so it is an association list with
  distinct keys: \<open>d[k] = v\<close> is \<^const>\<open>AList.update\<close> (an existing key keeps its place, a
  new one goes to the end), \<open>del d[k]\<close> is \<^const>\<open>AList.delete\<close>, \<open>d.get(k)\<close> is
  \<^const>\<open>map_of\<close>.
\<close>

type_synonym 'v pydict = "(string \<times> 'v) list"

type_synonym attrs = "string pydict"

abbreviation dict_keys :: "'v pydict \<Rightarrow> string list" where
  "dict_keys d \<equiv> map fst d"

text \<open>\<open>d.update(other)\<close>: the items of \<open>other\<close> are stored one by one, in order.\<close>

definition dict_update :: "'v pydict \<Rightarrow> 'v pydict \<Rightarrow> 'v pydict" where
  "dict_update d other = fold (\<lambda>(k, v). AList.update k v) other d"

text \<open>\<open>str(n)\<close> of a non-negative integer, for the log messages.\<close>

function str_nat :: "nat \<Rightarrow> string" where
  "str_nat n = (if n < 10 then [''0123456789'' ! n]
                else str_nat (n div 10) @ [''0123456789'' ! (n mod 10)])"
  by pat_completeness auto
termination
  by (relation "measure id") auto

declare str_nat.simps [simp del]

definition str_int :: "int \<Rightarrow> string" where
  "str_int i = (if i < 0 then CHR ''-'' # str_nat (nat (- i)) else str_nat (nat i))"

text \<open>\<open>sub in s\<close> on strings.\<close>

fun str_contains :: "string \<Rightarrow> string \<Rightarrow> bool" where
  "str_contains sub [] = (sub = [])"
| "str_contains sub (c # cs) = (prefix sub (c # cs) \<or> str_contains sub cs)"

datatype error = TypeError | ValueError string | OSError string

section \<open>The networkx graph classes\<close>

text \<open>
  \<open>nx.Graph\<close> and \<open>nx.DiGraph\<close> keep \<open>_node\<close>, a dict from node to attribute dict, and
  \<open>_adj\<close>, a dict from node to the dict of its neighbours (for a \<open>DiGraph\<close>: its
  successors) with the edge's attribute dict. In an undirected graph the edge \<open>u - v\<close> is
  stored as \<open>_adj[u][v]\<close> and \<open>_adj[v][u]\<close>, one dict object under both. The predecessor
  dict \<open>_pred\<close> of a \<open>DiGraph\<close> is the transpose of \<open>_succ\<close> and is not stored: the
  operations below read it off \<open>_adj\<close>.
\<close>

record nxgraph =
  nx_directed :: bool
  nx_node :: "attrs pydict"
  nx_adj :: "attrs pydict pydict"

definition nx_new :: "bool \<Rightarrow> nxgraph" where
  "nx_new d = \<lparr>nx_directed = d, nx_node = [], nx_adj = []\<rparr>"

text \<open>\<open>G._adj[n]\<close>; networkx keeps \<open>_adj\<close> and \<open>_node\<close> over the same keys.\<close>

definition nx_nbrs :: "nxgraph \<Rightarrow> string \<Rightarrow> attrs pydict" where
  "nx_nbrs g n = (case map_of (nx_adj g) n of None \<Rightarrow> [] | Some nb \<Rightarrow> nb)"

definition nx_has_node :: "nxgraph \<Rightarrow> string \<Rightarrow> bool" where
  "nx_has_node g n = (n \<in> set (dict_keys (nx_node g)))"

text \<open>\<open>G.has_edge(u, v)\<close>: \<open>v in self._adj[u]\<close>, and \<open>False\<close> on a \<open>KeyError\<close>.\<close>

definition nx_has_edge :: "nxgraph \<Rightarrow> string \<Rightarrow> string \<Rightarrow> bool" where
  "nx_has_edge g u v =
     (case map_of (nx_adj g) u of None \<Rightarrow> False | Some nb \<Rightarrow> v \<in> set (dict_keys nb))"

text \<open>\<open>G.nodes.get(n)\<close> and \<open>G.edges.get((u, v))\<close>: \<open>Mapping.get\<close> turns the \<open>KeyError\<close> of
  a missing key into \<open>None\<close>.\<close>

definition nx_nodes_get :: "nxgraph \<Rightarrow> string \<Rightarrow> attrs option" where
  "nx_nodes_get g n = map_of (nx_node g) n"

definition nx_edges_get :: "nxgraph \<Rightarrow> string \<Rightarrow> string \<Rightarrow> attrs option" where
  "nx_edges_get g u v =
     (case map_of (nx_adj g) u of None \<Rightarrow> None | Some nb \<Rightarrow> map_of nb v)"

text \<open>\<open>a[x][y]\<close> for a dict of dicts \<open>a\<close>, and \<open>None\<close> where a key is missing.\<close>

definition adj_get :: "attrs pydict pydict \<Rightarrow> string \<Rightarrow> string \<Rightarrow> attrs option" where
  "adj_get a x y = (case map_of a x of None \<Rightarrow> None | Some nb \<Rightarrow> map_of nb y)"

text \<open>\<open>G.add_node(n, **attr)\<close>.\<close>

definition nx_add_node :: "string \<Rightarrow> attrs \<Rightarrow> nxgraph \<Rightarrow> nxgraph" where
  "nx_add_node n attr g =
     (case map_of (nx_node g) n of
        None \<Rightarrow> g\<lparr>nx_adj := AList.update n [] (nx_adj g),
                  nx_node := AList.update n (dict_update [] attr) (nx_node g)\<rparr>
      | Some old \<Rightarrow> g\<lparr>nx_node := AList.update n (dict_update old attr) (nx_node g)\<rparr>)"

text \<open>The first lines of \<open>G.add_edge\<close>: an endpoint that is not a node yet becomes one,
  with no attributes.\<close>

definition nx_ensure_node :: "string \<Rightarrow> nxgraph \<Rightarrow> nxgraph" where
  "nx_ensure_node n g =
     (if n \<in> set (dict_keys (nx_node g)) then g
      else g\<lparr>nx_adj := AList.update n [] (nx_adj g), nx_node := AList.update n [] (nx_node g)\<rparr>)"

text \<open>\<open>G._adj[u][v] = dd\<close>.\<close>

definition adj_set :: "string \<Rightarrow> string \<Rightarrow> attrs \<Rightarrow> attrs pydict pydict \<Rightarrow> attrs pydict pydict" where
  "adj_set u v dd a =
     AList.update u (AList.update v dd (case map_of a u of None \<Rightarrow> [] | Some nb \<Rightarrow> nb)) a"

text \<open>\<open>del G._adj[u][v]\<close>.\<close>

definition adj_del :: "string \<Rightarrow> string \<Rightarrow> attrs pydict pydict \<Rightarrow> attrs pydict pydict" where
  "adj_del u v a =
     (case map_of a u of None \<Rightarrow> a | Some nb \<Rightarrow> AList.update u (AList.delete v nb) a)"

text \<open>\<open>G.add_edge(u, v, **attr)\<close>: the edge's dict is the one already there (or a new one)
  updated with \<open>attr\<close>; a \<open>Graph\<close> stores it under both endpoints, a \<open>DiGraph\<close> under
  \<open>_succ[u][v]\<close> (and \<open>_pred[v][u]\<close>).\<close>

definition nx_add_edge :: "string \<Rightarrow> string \<Rightarrow> attrs \<Rightarrow> nxgraph \<Rightarrow> nxgraph" where
  "nx_add_edge u v attr g =
     (let g2 = nx_ensure_node v (nx_ensure_node u g);
          datadict = dict_update (case map_of (nx_nbrs g2 u) v of None \<Rightarrow> [] | Some dd \<Rightarrow> dd) attr;
          a1 = adj_set u v datadict (nx_adj g2)
      in g2\<lparr>nx_adj := (if nx_directed g2 then a1 else adj_set v u datadict a1)\<rparr>)"

text \<open>\<open>G.remove_node(n)\<close>, called on a node of the graph only. \<open>Graph\<close>: \<open>n\<close> leaves the
  neighbour dict of each of its neighbours, then \<open>_adj\<close>. \<open>DiGraph\<close>: \<open>n\<close> leaves \<open>_succ\<close>,
  and the successor dict of each of its predecessors.\<close>

definition nx_remove_node :: "string \<Rightarrow> nxgraph \<Rightarrow> nxgraph" where
  "nx_remove_node n g =
     (let nbrs = dict_keys (nx_nbrs g n) in
      g\<lparr>nx_node := AList.delete n (nx_node g),
        nx_adj := AList.delete n
          (map (\<lambda>(u, nb). (u, if nx_directed g \<or> u \<in> set nbrs then AList.delete n nb else nb))
             (nx_adj g))\<rparr>)"

text \<open>\<open>G.remove_edge(u, v)\<close>, called on an edge of the graph only.\<close>

definition nx_remove_edge :: "string \<Rightarrow> string \<Rightarrow> nxgraph \<Rightarrow> nxgraph" where
  "nx_remove_edge u v g =
     (let a1 = adj_del u v (nx_adj g)
      in g\<lparr>nx_adj := (if \<not> nx_directed g \<and> u \<noteq> v then adj_del v u a1 else a1)\<rparr>)"

text \<open>The degree of a node of the graph. \<open>Graph\<close>: \<open>len(nbrs) + (n in nbrs)\<close>, a self-loop
  counts twice. \<open>DiGraph\<close>: \<open>len(succ[n]) + len(pred[n])\<close>.\<close>

definition nx_deg :: "nxgraph \<Rightarrow> string \<Rightarrow> nat" where
  "nx_deg g n =
     (if nx_directed g
      then length (nx_nbrs g n) + length (filter (\<lambda>(u, nb). n \<in> set (dict_keys nb)) (nx_adj g))
      else length (nx_nbrs g n) + (if n \<in> set (dict_keys (nx_nbrs g n)) then 1 else 0))"

text \<open>
  \<open>G.degree(nbunch)\<close>: the integer degree when \<open>nbunch\<close> is a node. Otherwise networkx takes
  \<open>nbunch\<close> for a container of nodes and returns a \<open>DegreeView\<close> over those of its items
  that are nodes; the items of a \<open>str\<close> are its characters. It does not raise.
\<close>

datatype degree_value = DegInt nat | DegView "(string \<times> nat) list"

definition nx_degree :: "nxgraph \<Rightarrow> string \<Rightarrow> degree_value" where
  "nx_degree g nbunch =
     (if nbunch \<in> set (dict_keys (nx_adj g)) then DegInt (nx_deg g nbunch)
      else DegView (map (\<lambda>n. (n, nx_deg g n))
             (filter (\<lambda>n. n \<in> set (dict_keys (nx_adj g))) (map (\<lambda>c. [c]) nbunch))))"

text \<open>Python's \<open>+\<close>: defined on two \<open>int\<close>s; a \<open>DegreeView\<close> has no \<open>__add__\<close>, and the
  sum raises \<open>TypeError\<close>.\<close>

fun py_add :: "degree_value \<Rightarrow> degree_value \<Rightarrow> error + nat" where
  "py_add (DegInt a) (DegInt b) = Inr (a + b)"
| "py_add _ _ = Inl TypeError"

text \<open>\<open>G.edges(data=True)\<close>. \<open>Graph\<close>: nodes in \<open>_adj\<close> order, each with its neighbours that
  were not reported before, so every edge comes once, from its endpoint that comes first.
  \<open>DiGraph\<close>: every successor of every node.\<close>

fun edges_undirected :: "string list \<Rightarrow> attrs pydict pydict \<Rightarrow> (string \<times> string \<times> attrs) list" where
  "edges_undirected seen [] = []"
| "edges_undirected seen ((n, nb) # rest) =
     map (\<lambda>(v, dd). (n, v, dd)) (filter (\<lambda>(v, dd). v \<notin> set seen) nb)
     @ edges_undirected (n # seen) rest"

definition adj_triples :: "attrs pydict pydict \<Rightarrow> (string \<times> string \<times> attrs) list" where
  "adj_triples a = concat (map (\<lambda>(n, nb). map (\<lambda>(v, dd). (n, v, dd)) nb) a)"

definition nx_edges :: "nxgraph \<Rightarrow> (string \<times> string \<times> attrs) list" where
  "nx_edges g = (if nx_directed g then adj_triples (nx_adj g) else edges_undirected [] (nx_adj g))"

text \<open>\<open>list(G.edges(n))\<close> for a node \<open>n\<close>: the pairs \<open>(n, nbr)\<close>.\<close>

definition nx_edges_of :: "nxgraph \<Rightarrow> string \<Rightarrow> (string \<times> string) list" where
  "nx_edges_of g n = map (\<lambda>(v, dd). (n, v)) (nx_nbrs g n)"

text \<open>\<open>G.number_of_edges()\<close>: half the sum of the degrees.\<close>

definition nx_number_of_edges :: "nxgraph \<Rightarrow> nat" where
  "nx_number_of_edges g = sum_list (map (nx_deg g) (dict_keys (nx_adj g))) div 2"

text \<open>
  \<open>G.add_nodes_from(nodes)\<close> over \<open>(node, dict)\<close> pairs and \<open>G.add_edges_from(edges)\<close>
  over \<open>(u, v, dict)\<close> triples are \<open>add_node\<close> and \<open>add_edge\<close> on each item in turn.
  \<open>nx_build\<close> is a new graph filled with the one, then the other.
\<close>

definition add_nodes_from :: "attrs pydict \<Rightarrow> nxgraph \<Rightarrow> nxgraph" where
  "add_nodes_from nodes g = fold (\<lambda>(n, d). nx_add_node n d) nodes g"

definition add_edges_from :: "(string \<times> string \<times> attrs) list \<Rightarrow> nxgraph \<Rightarrow> nxgraph" where
  "add_edges_from edges g = fold (\<lambda>(u, v, dd). nx_add_edge u v dd) edges g"

definition nx_build :: "bool \<Rightarrow> attrs pydict \<Rightarrow> (string \<times> string \<times> attrs) list \<Rightarrow> nxgraph" where
  "nx_build d nodes edges = add_edges_from edges (add_nodes_from nodes (nx_new d))"

text \<open>\<open>G.copy()\<close>: a new graph of the same class, given the nodes of \<open>G\<close> and then every
  entry \<open>(u, v, dict)\<close> of \<open>G._adj\<close> (an undirected edge is given from both ends).\<close>

definition nx_copy :: "nxgraph \<Rightarrow> nxgraph" where
  "nx_copy g = nx_build (nx_directed g) (nx_node g) (adj_triples (nx_adj g))"

text \<open>
  The order in which Python iterates a \<open>set\<close> of strings follows their hashes, which the
  interpreter salts per process. It is a parameter \<open>ho\<close> here: \<open>set_iter ho xs\<close> is the
  members of \<open>set(xs)\<close> in the order \<open>ho xs\<close> lists them (a member \<open>ho\<close> leaves out
  comes last), so it is a duplicate-free enumeration of \<open>set(xs)\<close> whatever \<open>ho\<close> is.
\<close>

type_synonym hash_order = "string list \<Rightarrow> string list"

definition set_iter :: "hash_order \<Rightarrow> string list \<Rightarrow> string list" where
  "set_iter ho xs =
     (let ys = remdups (filter (\<lambda>n. n \<in> set xs) (ho xs))
      in ys @ filter (\<lambda>n. n \<notin> set ys) (remdups xs))"

text \<open>
  \<open>G.subgraph(nbunch)\<close> is a view of \<open>G\<close> filtered by the set of the members of \<open>nbunch\<close>
  that are nodes of \<open>G\<close>. Iterating the view's \<open>_node\<close> or \<open>_adj\<close> (\<open>FilterAtlas\<close>,
  \<open>FilterAdjacency\<close>) walks that set when it has less than half as many members as the
  dict of \<open>G\<close> has keys, and the dict of \<open>G\<close> otherwise; a neighbour dict is always walked
  in its own order. The view is given here as the graph its iteration shows.
\<close>

definition filter_atlas :: "hash_order \<Rightarrow> string list \<Rightarrow> 'v pydict \<Rightarrow> 'v pydict" where
  "filter_atlas ho keep atlas =
     (if 2 * length (remdups keep) < length atlas
      then concat (map (\<lambda>n. case map_of atlas n of None \<Rightarrow> [] | Some x \<Rightarrow> [(n, x)])
                     (set_iter ho keep))
      else filter (\<lambda>(n, x). n \<in> set keep) atlas)"

definition nx_subgraph :: "hash_order \<Rightarrow> nxgraph \<Rightarrow> string list \<Rightarrow> nxgraph" where
  "nx_subgraph ho g nbunch =
     (let keep = filter (\<lambda>n. n \<in> set (dict_keys (nx_adj g))) nbunch
      in \<lparr>nx_directed = nx_directed g,
          nx_node = filter_atlas ho keep (nx_node g),
          nx_adj = map (\<lambda>(n, nb). (n, filter (\<lambda>(v, dd). v \<in> set keep) nb))
                     (filter_atlas ho keep (nx_adj g))\<rparr>)"

text \<open>
  \<open>nx.single_source_shortest_path_length(G, source, cutoff)\<close>: breadth-first search over
  \<open>G._adj\<close>, one level per round while the level is not empty and \<open>cutoff > level\<close>. The
  result is the dict of the nodes seen; only its keys are used.
\<close>

definition bfs_visit :: "string \<Rightarrow> string list \<times> string list \<Rightarrow> string list \<times> string list" where
  "bfs_visit w = (\<lambda>(seen, nextlevel).
     if w \<in> set seen then (seen, nextlevel) else (seen @ [w], nextlevel @ [w]))"

definition bfs_expand :: "nxgraph \<Rightarrow> string list \<Rightarrow> string list \<Rightarrow> string list \<times> string list" where
  "bfs_expand g thislevel seen =
     fold (\<lambda>v acc. fold bfs_visit (dict_keys (nx_nbrs g v)) acc) thislevel (seen, [])"

fun bfs :: "nxgraph \<Rightarrow> nat \<Rightarrow> string list \<Rightarrow> string list \<Rightarrow> string list" where
  "bfs g 0 nextlevel seen = seen"
| "bfs g (Suc k) nextlevel seen =
     (if nextlevel = [] then seen
      else (case bfs_expand g nextlevel seen of (seen', nextlevel') \<Rightarrow> bfs g k nextlevel' seen'))"

definition single_source_shortest_path_length :: "nxgraph \<Rightarrow> string \<Rightarrow> int \<Rightarrow> string list" where
  "single_source_shortest_path_length g source cutoff = bfs g (nat cutoff) [source] [source]"

text \<open>\<open>nx.ego_graph(G, n, radius)\<close>: \<open>G.subgraph(sp).copy()\<close> for the nodes \<open>sp\<close> within
  \<open>radius\<close> edges of \<open>n\<close>.\<close>

definition ego_graph :: "hash_order \<Rightarrow> nxgraph \<Rightarrow> string \<Rightarrow> int \<Rightarrow> nxgraph" where
  "ego_graph ho g n radius =
     nx_copy (nx_subgraph ho g (single_source_shortest_path_length g n radius))"

text \<open>
  The GraphML file, as far as the storage depends on it: \<open>nx.write_graphml\<close> writes the
  graph's class, its nodes in \<open>G.nodes(data=True)\<close> order and its edges in
  \<open>G.edges(data=True)\<close> order; \<open>nx.read_graphml\<close> makes a graph of that class and adds
  the nodes, then the edges, in file order.
\<close>

record graphml =
  gml_directed :: bool
  gml_nodes :: "attrs pydict"
  gml_edges :: "(string \<times> string \<times> attrs) list"

definition write_graphml :: "nxgraph \<Rightarrow> graphml" where
  "write_graphml g = \<lparr>gml_directed = nx_directed g, gml_nodes = nx_node g, gml_edges = nx_edges g\<rparr>"

definition read_graphml :: "graphml \<Rightarrow> nxgraph" where
  "read_graphml f = nx_build (gml_directed f) (gml_nodes f) (gml_edges f)"

section \<open>NetworkXStorage\<close>

subsection \<open>Canonical order\<close>

definition sort_source_target :: "string \<times> string \<times> attrs \<Rightarrow> string \<times> string \<times> attrs" where
  "sort_source_target = (\<lambda>(source, target, edge_data).
     if source > target then (target, source, edge_data) else (source, target, edge_data))"

definition get_edge_key :: "string \<Rightarrow> string \<Rightarrow> string" where
  "get_edge_key source target = source @ '' -> '' @ target"

definition stabilize_graph :: "nxgraph \<Rightarrow> nxgraph" where
  "stabilize_graph graph =
     (let fixed_graph = nx_new (nx_directed graph);
          sorted_nodes = sort_key fst (nx_node graph);
          fixed_graph = add_nodes_from sorted_nodes fixed_graph;
          edges = nx_edges graph;
          edges = (if \<not> nx_directed graph then map sort_source_target edges else edges);
          edges = sort_key (\<lambda>(s, t, d). get_edge_key s t) edges
      in add_edges_from edges fixed_graph)"

subsection \<open>The storage object and what it shares with its peers\<close>

text \<open>
  \<open>sgraph\<close> is \<open>self._graph\<close> and \<open>storage_updated\<close> the update flag of this process
  (\<open>self.storage_updated\<close>, or its \<open>.value\<close> when \<open>is_multiprocess\<close>). The file at
  \<open>self._graphml_xml_file\<close> is \<open>graphml_file\<close>, \<open>None\<close> while it does not exist. The calls
  of \<open>logger\<close> are collected in \<open>logged\<close>. The storage lock is held around the bodies
  below and one call runs at a time.
\<close>

datatype loglevel = DEBUG | INFO | WARNING | ERROR

record storage =
  namespace :: string
  working_dir :: string
  sgraph :: nxgraph
  storage_updated :: bool
  graphml_file :: "graphml option"
  peer_flags :: "bool list"
  logged :: "(loglevel \<times> string) list"

definition logger :: "loglevel \<Rightarrow> string \<Rightarrow> storage \<Rightarrow> storage" where
  "logger lvl msg s = s\<lparr>logged := logged s @ [(lvl, msg)]\<rparr>"

text \<open>\<open>os.path.join(working_dir, f"graph_{namespace}.graphml")\<close>.\<close>

definition graphml_xml_file :: "storage \<Rightarrow> string" where
  "graphml_xml_file s =
     (if working_dir s = [] \<or> last (working_dir s) = CHR ''/'' then working_dir s
      else working_dir s @ ''/'') @ ''graph_'' @ namespace s @ ''.graphml''"

definition load_nx_graph :: "graphml option \<Rightarrow> nxgraph option" where
  "load_nx_graph file = (case file of Some f \<Rightarrow> Some (read_graphml f) | None \<Rightarrow> None)"

text \<open>\<open>loaded or nx.Graph()\<close>: \<open>None\<close> is false, and so is a graph with no nodes
  (\<open>len(G) == 0\<close>).\<close>

definition or_new_graph :: "nxgraph option \<Rightarrow> nxgraph" where
  "or_new_graph loaded =
     (case loaded of None \<Rightarrow> nx_new False
      | Some g \<Rightarrow> if nx_node g = [] then nx_new False else g)"

text \<open>Modelled from the spec: \<open>set_all_update_flags\<close> of \<open>shared_storage.py\<close>, which is not
  among the sources: it marks the flag of every other process of the namespace.\<close>

definition set_all_update_flags :: "storage \<Rightarrow> storage" where
  "set_all_update_flags s = s\<lparr>peer_flags := map (\<lambda>_. True) (peer_flags s)\<rparr>"

text \<open>\<open>__post_init__\<close>, and \<open>initialize\<close> with the flag that \<open>get_update_flag\<close> hands out.\<close>

definition post_init :: "string \<Rightarrow> string \<Rightarrow> graphml option \<Rightarrow> bool list \<Rightarrow> storage" where
  "post_init ns wd file peers =
     (let s = \<lparr>namespace = ns, working_dir = wd, sgraph = nx_new False, storage_updated = False,
               graphml_file = file, peer_flags = peers, logged = []\<rparr>;
          preloaded_graph = load_nx_graph file;
          s = (case preloaded_graph of
                 Some g \<Rightarrow> logger INFO (''Loaded graph from '' @ graphml_xml_file s @ '' with ''
                             @ str_nat (length (nx_node g)) @ '' nodes, ''
                             @ str_nat (nx_number_of_edges g) @ '' edges'') s
               | None \<Rightarrow> logger INFO ''Created new empty graph'' s)
      in s\<lparr>sgraph := or_new_graph preloaded_graph\<rparr>)"

definition initialize :: "bool \<Rightarrow> storage \<Rightarrow> storage" where
  "initialize flag s = s\<lparr>storage_updated := flag\<rparr>"

text \<open>\<open>_get_graph\<close>; the graph it returns is \<open>sgraph\<close> of the state it returns.\<close>

definition get_graph :: "bool \<Rightarrow> storage \<Rightarrow> storage" where
  "get_graph is_multiprocess s =
     (if (is_multiprocess \<and> storage_updated s) \<or> (\<not> is_multiprocess \<and> storage_updated s)
      then (let s = logger INFO (''Reloading graph for '' @ namespace s
                                  @ '' due to update by another process'') s;
                s = s\<lparr>sgraph := or_new_graph (load_nx_graph (graphml_file s))\<rparr>
            in s\<lparr>storage_updated := False\<rparr>)
      else s)"

subsection \<open>Queries\<close>

definition has_node :: "bool \<Rightarrow> storage \<Rightarrow> string \<Rightarrow> bool \<times> storage" where
  "has_node mp s node_id = (let s = get_graph mp s in (nx_has_node (sgraph s) node_id, s))"

definition has_edge :: "bool \<Rightarrow> storage \<Rightarrow> string \<Rightarrow> string \<Rightarrow> bool \<times> storage" where
  "has_edge mp s source_node_id target_node_id =
     (let s = get_graph mp s in (nx_has_edge (sgraph s) source_node_id target_node_id, s))"

definition get_node :: "bool \<Rightarrow> storage \<Rightarrow> string \<Rightarrow> attrs option \<times> storage" where
  "get_node mp s node_id = (let s = get_graph mp s in (nx_nodes_get (sgraph s) node_id, s))"

definition node_degree :: "bool \<Rightarrow> storage \<Rightarrow> string \<Rightarrow> degree_value \<times> storage" where
  "node_degree mp s node_id = (let s = get_graph mp s in (nx_degree (sgraph s) node_id, s))"

definition edge_degree :: "bool \<Rightarrow> storage \<Rightarrow> string \<Rightarrow> string \<Rightarrow> (error + nat) \<times> storage" where
  "edge_degree mp s src_id tgt_id =
     (let s = get_graph mp s
      in (py_add (nx_degree (sgraph s) src_id) (nx_degree (sgraph s) tgt_id), s))"

definition get_edge :: "bool \<Rightarrow> storage \<Rightarrow> string \<Rightarrow> string \<Rightarrow> attrs option \<times> storage" where
  "get_edge mp s source_node_id target_node_id =
     (let s = get_graph mp s in (nx_edges_get (sgraph s) source_node_id target_node_id, s))"

definition get_node_edges ::
  "bool \<Rightarrow> storage \<Rightarrow> string \<Rightarrow> (string \<times> string) list option \<times> storage" where
  "get_node_edges mp s source_node_id =
     (let s = get_graph mp s
      in if nx_has_node (sgraph s) source_node_id
         then (Some (nx_edges_of (sgraph s) source_node_id), s)
         else (None, s))"

text \<open>\<open>get_all_labels\<close>: \<open>sorted(list(labels))\<close> of the set of the node ids.\<close>

definition get_all_labels :: "bool \<Rightarrow> storage \<Rightarrow> string list \<times> storage" where
  "get_all_labels mp s = (let s = get_graph mp s in (sort (remdups (dict_keys (nx_node (sgraph s)))), s))"

subsection \<open>Updates\<close>

text \<open>
  \<open>graph.add_node(node_id, **node_data)\<close> and \<open>graph.add_edge(src, tgt, **edge_data)\<close> pass
  the dict as keyword arguments. networkx declares \<open>add_node(self, node_for_adding, **attr)\<close>
  and \<open>add_edge(self, u_of_edge, v_of_edge, **attr)\<close>, so a key of the dict that is the
  name of one of these parameters makes the call raise \<open>TypeError\<close> (multiple values for
  the argument) before the graph is touched.
\<close>

definition kwargs_clash :: "string list \<Rightarrow> attrs \<Rightarrow> bool" where
  "kwargs_clash params kwargs = (set (dict_keys kwargs) \<inter> set params \<noteq> {})"

definition upsert_node :: "bool \<Rightarrow> storage \<Rightarrow> string \<Rightarrow> attrs \<Rightarrow> error option \<times> storage" where
  "upsert_node mp s node_id node_data =
     (let s = get_graph mp s
      in if kwargs_clash [''self'', ''node_for_adding''] node_data then (Some TypeError, s)
         else (None, s\<lparr>sgraph := nx_add_node node_id node_data (sgraph s)\<rparr>))"

definition upsert_edge ::
  "bool \<Rightarrow> storage \<Rightarrow> string \<Rightarrow> string \<Rightarrow> attrs \<Rightarrow> error option \<times> storage" where
  "upsert_edge mp s source_node_id target_node_id edge_data =
     (let s = get_graph mp s
      in if kwargs_clash [''self'', ''u_of_edge'', ''v_of_edge''] edge_data then (Some TypeError, s)
         else (None, s\<lparr>sgraph := nx_add_edge source_node_id target_node_id edge_data (sgraph s)\<rparr>))"

definition delete_node :: "bool \<Rightarrow> storage \<Rightarrow> string \<Rightarrow> storage" where
  "delete_node mp s node_id =
     (let s = get_graph mp s
      in if nx_has_node (sgraph s) node_id
         then logger DEBUG (''Node '' @ node_id @ '' deleted from the graph.'')
                (s\<lparr>sgraph := nx_remove_node node_id (sgraph s)\<rparr>)
         else logger WARNING (''Node '' @ node_id @ '' not found in the graph for deletion.'') s)"

definition remove_nodes :: "bool \<Rightarrow> storage \<Rightarrow> string list \<Rightarrow> storage" where
  "remove_nodes mp s nodes =
     (let s = get_graph mp s
      in s\<lparr>sgraph := fold (\<lambda>node graph. if nx_has_node graph node then nx_remove_node node graph
                                        else graph) nodes (sgraph s)\<rparr>)"

definition remove_edges :: "bool \<Rightarrow> storage \<Rightarrow> (string \<times> string) list \<Rightarrow> storage" where
  "remove_edges mp s edges =
     (let s = get_graph mp s
      in s\<lparr>sgraph := fold (\<lambda>(source, target) graph.
                             if nx_has_edge graph source target then nx_remove_edge source target graph
                             else graph) edges (sgraph s)\<rparr>)"

subsection \<open>get\_knowledge\_graph\<close>

text \<open>The result types of \<open>lightrag.types\<close> (\<open>KnowledgeGraphNode\<close>, \<open>KnowledgeGraphEdge\<close>,
  \<open>KnowledgeGraph\<close>), with the fields the storage fills in.\<close>

record knowledge_graph_node =
  kn_id :: string
  kn_labels :: "string list"
  kn_properties :: attrs

record knowledge_graph_edge =
  ke_id :: string
  ke_type :: string
  ke_source :: string
  ke_target :: string
  ke_properties :: attrs

record knowledge_graph =
  kg_nodes :: "knowledge_graph_node list"
  kg_edges :: "knowledge_graph_edge list"

definition max_graph_nodes :: nat where
  "max_graph_nodes = 500"

text \<open>The subgraph the label selects: the whole graph for \<open>"*"\<close>, else the ego graph of the
  first node whose id contains the label; \<open>None\<close> when no node does.\<close>

definition candidate_subgraph :: "hash_order \<Rightarrow> nxgraph \<Rightarrow> string \<Rightarrow> int \<Rightarrow> nxgraph option" where
  "candidate_subgraph ho graph node_label max_depth =
     (if node_label = ''*'' then Some (nx_copy graph)
      else (let nodes_to_explore = filter (\<lambda>n. str_contains node_label n) (dict_keys (nx_node graph))
            in case nodes_to_explore of
                 [] \<Rightarrow> None
               | n0 # _ \<Rightarrow> Some (ego_graph ho graph n0 max_depth)))"

text \<open>\<open>dict(subgraph.degree())\<close>, and the ids of the \<open>max_graph_nodes\<close> first items of
  \<open>sorted(node_degrees.items(), key=lambda x: x[1], reverse=True)\<close>; Python's sort is
  stable, also under \<open>reverse=True\<close>.\<close>

definition node_degrees :: "nxgraph \<Rightarrow> (string \<times> nat) list" where
  "node_degrees subgraph =
     dict_update [] (map (\<lambda>n. (n, nx_deg subgraph n)) (dict_keys (nx_adj subgraph)))"

definition top_node_ids :: "nxgraph \<Rightarrow> string list" where
  "top_node_ids subgraph =
     map fst (take max_graph_nodes (sort_key (\<lambda>x. - int (snd x)) (node_degrees subgraph)))"

definition truncate_subgraph :: "hash_order \<Rightarrow> nxgraph \<Rightarrow> nxgraph" where
  "truncate_subgraph ho subgraph =
     (if length (nx_node subgraph) > max_graph_nodes
      then nx_subgraph ho subgraph (top_node_ids subgraph)
      else subgraph)"

text \<open>The two loops that fill the result. The list \<open>labels\<close> that the first loop builds
  from \<open>entity_type\<close> is not used: the node is made with \<open>labels=[str(node)]\<close>.\<close>

definition add_result_node ::
  "string \<times> attrs \<Rightarrow> knowledge_graph_node list \<times> string list
     \<Rightarrow> knowledge_graph_node list \<times> string list" where
  "add_result_node = (\<lambda>(node, node_data) (nodes, seen_nodes).
     if node \<in> set seen_nodes then (nodes, seen_nodes)
     else (nodes @ [\<lparr>kn_id = node, kn_labels = [node], kn_properties = node_data\<rparr>],
           seen_nodes @ [node]))"

definition add_result_edge ::
  "string \<times> string \<times> attrs \<Rightarrow> knowledge_graph_edge list \<times> string list
     \<Rightarrow> knowledge_graph_edge list \<times> string list" where
  "add_result_edge = (\<lambda>(source, target, edge_data) (edges, seen_edges).
     let edge_id = source @ ''-'' @ target
     in if edge_id \<in> set seen_edges then (edges, seen_edges)
        else (edges @ [\<lparr>ke_id = edge_id, ke_type = ''DIRECTED'', ke_source = source,
                         ke_target = target, ke_properties = edge_data\<rparr>],
              seen_edges @ [edge_id]))"

definition project_subgraph :: "nxgraph \<Rightarrow> knowledge_graph" where
  "project_subgraph subgraph =
     \<lparr>kg_nodes = fst (fold add_result_node (nx_node subgraph) ([], [])),
      kg_edges = fst (fold add_result_edge (nx_edges subgraph) ([], []))\<rparr>"

definition get_knowledge_graph ::
  "hash_order \<Rightarrow> bool \<Rightarrow> storage \<Rightarrow> string \<Rightarrow> int \<Rightarrow> knowledge_graph \<times> storage" where
  "get_knowledge_graph ho mp s node_label max_depth =
     (let s = get_graph mp s
      in case candidate_subgraph ho (sgraph s) node_label max_depth of
           None \<Rightarrow> (\<lparr>kg_nodes = [], kg_edges = []\<rparr>,
                    logger WARNING (''No nodes found with label '' @ node_label) s)
         | Some subgraph \<Rightarrow>
             (let s = (if length (nx_node subgraph) > max_graph_nodes
                       then logger INFO (''Reduced graph from '' @ str_nat (length (nx_node subgraph))
                              @ '' nodes to '' @ str_nat max_graph_nodes @ '' nodes (depth=''
                              @ str_int max_depth @ '')'') s
                       else s);
                  result = project_subgraph (truncate_subgraph ho subgraph)
              in (result,
                  logger INFO (''Subgraph query successful | Node count: ''
                    @ str_nat (length (kg_nodes result)) @ '' | Edge count: ''
                    @ str_nat (length (kg_edges result))) s)))"

subsection \<open>index\_done\_callback\<close>

text \<open>Whether \<open>nx.write_graphml\<close> succeeds is up to the file system: \<open>WriteFails e\<close> is a
  write that raises an exception whose text is \<open>e\<close>, taken here to leave the file as it
  was.\<close>

datatype write_outcome = WriteOk | WriteFails string

definition write_nx_graph :: "write_outcome \<Rightarrow> nxgraph \<Rightarrow> storage \<Rightarrow> error option \<times> storage" where
  "write_nx_graph io graph s =
     (let s = logger INFO (''Writing graph with '' @ str_nat (length (nx_node graph))
                @ '' nodes, '' @ str_nat (nx_number_of_edges graph) @ '' edges'') s
      in case io of
           WriteOk \<Rightarrow> (None, s\<lparr>graphml_file := Some (write_graphml graph)\<rparr>)
         | WriteFails e \<Rightarrow> (Some (OSError e), s))"

text \<open>\<open>str(e)\<close> of a caught exception.\<close>

fun str_error :: "error \<Rightarrow> string" where
  "str_error (OSError m) = m"
| "str_error (ValueError m) = m"
| "str_error TypeError = []"

definition index_done_callback :: "bool \<Rightarrow> write_outcome \<Rightarrow> storage \<Rightarrow> bool \<times> storage" where
  "index_done_callback is_multiprocess io s =
     (if is_multiprocess \<and> storage_updated s
      then (let s = logger WARNING (''Graph for '' @ namespace s
                      @ '' was updated by another process, reloading...'') s;
                s = s\<lparr>sgraph := or_new_graph (load_nx_graph (graphml_file s))\<rparr>
            in (False, s\<lparr>storage_updated := False\<rparr>))
      else (let s = get_graph is_multiprocess s;
                graph = sgraph s
            in case write_nx_graph io graph s of
                 (None, s) \<Rightarrow> (True, (set_all_update_flags s)\<lparr>storage_updated := False\<rparr>)
               | (Some e, s) \<Rightarrow>
                   (False, logger ERROR (''Error saving graph for '' @ namespace s @ '': ''
                             @ str_error e) s)))"

text \<open>What a successful \<open>index_done_callback\<close> of a peer process holding the graph \<open>g\<close>
  does to this process: the file is the peer's, and \<open>set_all_update_flags\<close> has set this
  process's flag.\<close>

definition peer_persisted :: "nxgraph \<Rightarrow> storage \<Rightarrow> storage" where
  "peer_persisted g s = s\<lparr>graphml_file := Some (write_graphml g), storage_updated := True\<rparr>"

subsection \<open>The states a storage reaches\<close>

text \<open>
  A storage starts from \<open>__post_init__\<close> and \<open>initialize\<close>, and then runs its methods one
  after the other while peers persist graphs of their own in between. The GraphML file of
  a namespace is written by \<open>write_nx_graph\<close> only, from graphs that start as \<open>nx.Graph()\<close>:
  the file a storage starts from, if there is one, and the graphs its peers hold are
  undirected.
\<close>

inductive reachable :: "storage \<Rightarrow> bool" where
  start: "(case file of None \<Rightarrow> True | Some f \<Rightarrow> \<not> gml_directed f)
      \<Longrightarrow> reachable (initialize flag (post_init ns wd file peers))"
| peer: "reachable s \<Longrightarrow> \<not> nx_directed g \<Longrightarrow> reachable (peer_persisted g s)"
| r_has_node: "reachable s \<Longrightarrow> reachable (snd (has_node mp s n))"
| r_has_edge: "reachable s \<Longrightarrow> reachable (snd (has_edge mp s a b))"
| r_get_node: "reachable s \<Longrightarrow> reachable (snd (get_node mp s n))"
| r_node_degree: "reachable s \<Longrightarrow> reachable (snd (node_degree mp s n))"
| r_edge_degree: "reachable s \<Longrightarrow> reachable (snd (edge_degree mp s a b))"
| r_get_edge: "reachable s \<Longrightarrow> reachable (snd (get_edge mp s a b))"
| r_get_node_edges: "reachable s \<Longrightarrow> reachable (snd (get_node_edges mp s n))"
| r_get_all_labels: "reachable s \<Longrightarrow> reachable (snd (get_all_labels mp s))"
| r_upsert_node: "reachable s \<Longrightarrow> reachable (snd (upsert_node mp s n d))"
| r_upsert_edge: "reachable s \<Longrightarrow> reachable (snd (upsert_edge mp s a b d))"
| r_delete_node: "reachable s \<Longrightarrow> reachable (delete_node mp s n)"
| r_remove_nodes: "reachable s \<Longrightarrow> reachable (remove_nodes mp s ns)"
| r_remove_edges: "reachable s \<Longrightarrow> reachable (remove_edges mp s es)"
| r_get_knowledge_graph: "reachable s \<Longrightarrow> reachable (snd (get_knowledge_graph ho mp s l d))"
| r_index_done_callback: "reachable s \<Longrightarrow> reachable (snd (index_done_callback mp io s))"

text \<open>What networkx keeps true of a \<open>Graph\<close>: every key of \<open>_adj\<close> is a node, and an edge
  is stored under both its endpoints with the same attribute dict.\<close>

definition nx_undirected :: "nxgraph \<Rightarrow> bool" where
  "nx_undirected g \<longleftrightarrow>
     \<not> nx_directed g \<and> set (dict_keys (nx_adj g)) \<subseteq> set (dict_keys (nx_node g))
     \<and> (\<forall>a b. nx_edges_get g a b = nx_edges_get g b a)"

definition storage_undirected :: "storage \<Rightarrow> bool" where
  "storage_undirected s \<longleftrightarrow>
     nx_undirected (sgraph s)
     \<and> (case graphml_file s of None \<Rightarrow> True | Some f \<Rightarrow> \<not> gml_directed f)"

subsection \<open>Concrete states\<close>

text \<open>A storage started without a file.\<close>

definition fresh_storage :: storage where
  "fresh_storage = initialize False (post_init ''chunks'' ''rag'' None [])"

text \<open>A storage with a node of its own that a peer has overtaken: the peer has written a
  graph with the node \<open>P\<close> and set the flag.\<close>

definition stale_storage :: storage where
  "stale_storage =
     peer_persisted (nx_add_node ''P'' [] (nx_new False))
       (snd (upsert_node False fresh_storage ''A'' []))"

text \<open>A storage whose nodes were added in the order \<open>B\<close>, \<open>A\<close>.\<close>

definition unsorted_storage :: storage where
  "unsorted_storage =
     snd (upsert_node False (snd (upsert_node False fresh_storage ''B'' [])) ''A'' [])"

text \<open>The graph with the nodes \<open>A\<close>, \<open>B\<close>, \<open>C\<close> and the edges \<open>A - B\<close>, \<open>B - C\<close>.\<close>

definition abc_storage :: storage where
  "abc_storage =
     snd (upsert_edge False
       (snd (upsert_edge False
          (snd (upsert_node False
             (snd (upsert_node False (snd (upsert_node False fresh_storage ''A'' [])) ''B'' []))
             ''C'' []))
          ''A'' ''B'' []))
       ''B'' ''C'' [])"

section \<open>Theorems\<close>

lemma dict_update_Nil [simp]: "dict_update d [] = d"
  by (simp add: dict_update_def)

lemma str_nat_digit: "n < 10 \<Longrightarrow> str_nat n = [''0123456789'' ! n]"
  by (subst str_nat.simps) simp

lemmas storage_eval = fresh_storage_def stale_storage_def unsorted_storage_def abc_storage_def
  initialize_def
  post_init_def get_graph_def load_nx_graph_def or_new_graph_def nx_new_def logger_def
  peer_persisted_def upsert_node_def upsert_edge_def kwargs_clash_def nx_add_node_def nx_add_edge_def
  nx_ensure_node_def adj_set_def nx_nbrs_def write_graphml_def read_graphml_def nx_build_def
  add_nodes_from_def add_edges_from_def nx_edges_def adj_triples_def Let_def

subsection \<open>Basic facts\<close>

lemma str_contains_iff: "str_contains sub s \<longleftrightarrow> sublist sub s"
  by (induction s) (auto simp: sublist_Cons_right)

lemma get_graph_flag [simp]: "storage_updated (get_graph mp s) = False"
  by (auto simp: get_graph_def logger_def Let_def)

lemma get_graph_clean: "\<not> storage_updated s \<Longrightarrow> get_graph mp s = s"
  by (simp add: get_graph_def)

lemma get_graph_idem [simp]: "get_graph mp' (get_graph mp s) = get_graph mp s"
  by (simp add: get_graph_clean)

lemma get_graph_sgraph_upd [simp]:
  "get_graph mp' ((get_graph mp s)\<lparr>sgraph := g\<rparr>) = (get_graph mp s)\<lparr>sgraph := g\<rparr>"
  by (simp add: get_graph_clean)

(* dict lemmas *)
lemma map_of_dict_update:
  "map_of (dict_update d other) = map_of d ++ map_of (rev other)"
  unfolding dict_update_def
proof (induction other arbitrary: d)
  case Nil show ?case by simp
next
  case (Cons kv other)
  obtain k v where kv: "kv = (k, v)" by (cases kv)
  show ?case
    by (auto simp: kv Cons.IH update_conv' map_add_def fun_eq_iff split: option.splits)
qed

lemma dict_update_carries:
  assumes "distinct (dict_keys other)" "(k, v) \<in> set other"
  shows "map_of (dict_update d other) k = Some v"
proof -
  have "distinct (dict_keys (rev other))" using assms(1) by (simp add: rev_map [symmetric])
  then have "map_of (rev other) k = Some v" using assms(2) by simp
  then show ?thesis by (simp add: map_of_dict_update)
qed

lemma map_of_adj_set:
  "map_of (adj_set u v dd a) x =
     (if x = u then Some (AList.update v dd (case map_of a u of None \<Rightarrow> [] | Some nb \<Rightarrow> nb))
      else map_of a x)"
  by (simp add: adj_set_def update_conv')

lemma edges_get_adj_set:
  "nx_edges_get (g\<lparr>nx_adj := adj_set u v dd a\<rparr>) x y =
     (if x = u \<and> y = v then Some dd else nx_edges_get (g\<lparr>nx_adj := a\<rparr>) x y)"
  by (auto simp: nx_edges_get_def map_of_adj_set update_conv' split: option.splits)

lemma has_node_ensure: "nx_has_node (nx_ensure_node n g) m \<longleftrightarrow> m = n \<or> nx_has_node g m"
  by (auto simp: nx_has_node_def nx_ensure_node_def dom_update)

lemma nx_node_add_edge: "nx_node (nx_add_edge u v attr g) = nx_node (nx_ensure_node v (nx_ensure_node u g))"
  by (simp add: nx_add_edge_def Let_def)

lemma has_node_add_edge:
  "nx_has_node (nx_add_edge u v attr g) m \<longleftrightarrow> m = u \<or> m = v \<or> nx_has_node g m"
  using has_node_ensure by (auto simp: nx_has_node_def nx_node_add_edge)

lemma nodes_get_ensure:
  "nx_nodes_get (nx_ensure_node n g) m =
     (if m = n \<and> \<not> nx_has_node g n then Some [] else nx_nodes_get g m)"
  by (auto simp: nx_nodes_get_def nx_has_node_def nx_ensure_node_def update_conv')

lemma nodes_get_add_edge:
  "nx_nodes_get (nx_add_edge u v attr g) m =
     (if (m = u \<or> m = v) \<and> \<not> nx_has_node g m then Some [] else nx_nodes_get g m)"
  by (auto simp: nx_nodes_get_def nx_node_add_edge[unfolded nx_nodes_get_def] 
        nodes_get_ensure[unfolded nx_nodes_get_def] has_node_ensure)

lemma edges_get_add_edge:
  "\<exists>old. nx_edges_get (nx_add_edge u v attr g) u v = Some (dict_update old attr)
       \<and> (\<not> nx_directed g \<longrightarrow> nx_edges_get (nx_add_edge u v attr g) v u = Some (dict_update old attr))"
  by (auto simp: nx_add_edge_def Let_def nx_edges_get_def map_of_adj_set update_conv' nx_ensure_node_def
      split: option.splits)

lemma in_keys_iff: "(k \<in> fst ` set d) = (\<exists>y. map_of d k = Some y)"
  using map_of_eq_None_iff [of d k] by auto

lemma has_edge_iff: "nx_has_edge g u v \<longleftrightarrow> nx_edges_get g u v \<noteq> None"
  by (cases "map_of (nx_adj g) u") (simp_all add: nx_has_edge_def nx_edges_get_def in_keys_iff)

lemmas kg_eval = get_knowledge_graph_def get_graph_def candidate_subgraph_def ego_graph_def
   single_source_shortest_path_length_def bfs_expand_def bfs_visit_def nx_nbrs_def nx_subgraph_def
   filter_atlas_def nx_copy_def nx_build_def add_nodes_from_def add_edges_from_def adj_triples_def
   nx_new_def nx_add_node_def nx_add_edge_def nx_ensure_node_def adj_set_def Let_def
   truncate_subgraph_def max_graph_nodes_def project_subgraph_def add_result_node_def add_result_edge_def
   nx_edges_def eval_nat_numeral

lemma abc_storage_eq: "abc_storage = \<lparr>namespace = ''chunks'', working_dir = ''rag'',
     sgraph =
       \<lparr>nx_directed = False,
          nx_node = [(''A'', []), (''B'', []), (''C'', [])],
          nx_adj =
            [(''A'', [(''B'', [])]), (''B'', [(''A'', []), (''C'', [])]),
             (''C'', [(''B'', [])])]\<rparr>,
     storage_updated = False, graphml_file = None, peer_flags = [],
     logged = [(INFO, ''Created new empty graph'')]\<rparr>"
  by (simp add: storage_eval)

lemma nx_copy_empty: "nx_node g = [] \<Longrightarrow> nx_adj g = [] \<Longrightarrow> nx_copy g = nx_new (nx_directed g)"
  by (simp add: nx_copy_def nx_build_def add_nodes_from_def add_edges_from_def adj_triples_def)

subsection \<open>Removing nodes and edges\<close>

lemma map_of_map_snd:
  "map_of (map (\<lambda>(u, nb). (u, f u nb)) a) x = map_option (f x) (map_of a x)"
  by (induction a) auto

lemma map_of_adj_del:
  "map_of (adj_del u v a) x =
     (if x = u then map_option (AList.delete v) (map_of a u) else map_of a x)"
  by (cases "map_of a u") (auto simp: adj_del_def update_conv')

lemma edges_get_adj_del:
  "nx_edges_get (g\<lparr>nx_adj := adj_del u v a\<rparr>) x y =
     (if x = u \<and> y = v then None else nx_edges_get (g\<lparr>nx_adj := a\<rparr>) x y)"
  by (cases "map_of a u") (auto simp: nx_edges_get_def map_of_adj_del delete_conv')

lemma edges_get_remove_edge:
  "nx_edges_get (nx_remove_edge u v g) x y =
     (if (x = u \<and> y = v) \<or> (\<not> nx_directed g \<and> x = v \<and> y = u) then None
      else nx_edges_get g x y)"
  by (auto simp: nx_remove_edge_def Let_def nx_edges_get_def map_of_adj_del delete_conv'
      split: option.splits)

lemma nx_node_remove_edge [simp]: "nx_node (nx_remove_edge u v g) = nx_node g"
  by (simp add: nx_remove_edge_def Let_def)

lemma nx_directed_remove_edge [simp]: "nx_directed (nx_remove_edge u v g) = nx_directed g"
  by (simp add: nx_remove_edge_def Let_def)

lemma nx_node_remove_node [simp]: "nx_node (nx_remove_node n g) = AList.delete n (nx_node g)"
  by (simp add: nx_remove_node_def Let_def)

lemma nx_directed_remove_node [simp]: "nx_directed (nx_remove_node n g) = nx_directed g"
  by (simp add: nx_remove_node_def Let_def)

lemma edges_get_remove_node:
  "x \<noteq> n \<Longrightarrow> y \<noteq> n \<Longrightarrow> nx_edges_get (nx_remove_node n g) x y = nx_edges_get g x y"
  by (cases "map_of (nx_adj g) x")
     (auto simp: nx_remove_node_def Let_def nx_edges_get_def delete_conv' map_of_map_snd)

lemma nx_node_remove_nodes_loop:
  "nx_node (fold (\<lambda>node graph. if nx_has_node graph node then nx_remove_node node graph else graph) ns g)
     = filter (\<lambda>(n, a). n \<notin> set ns) (nx_node g)"
proof (induction ns arbitrary: g)
  case Nil
  show ?case by simp
next
  case (Cons n ns)
  have "filter (\<lambda>(k, a). k \<notin> set ns) (AList.delete n (nx_node g))
      = filter (\<lambda>(k, a). k \<notin> set (n # ns)) (nx_node g)"
    by (auto simp: AList.delete_eq intro: filter_cong)
  moreover have "\<not> nx_has_node g n \<Longrightarrow> AList.delete n (nx_node g) = nx_node g"
    by (simp add: nx_has_node_def)
  ultimately show ?case
    by (cases "nx_has_node g n") (simp_all add: Cons.IH)
qed

lemma edges_get_remove_nodes_loop:
  "x \<notin> set ns \<Longrightarrow> y \<notin> set ns \<Longrightarrow>
   nx_edges_get (fold (\<lambda>node graph. if nx_has_node graph node then nx_remove_node node graph else graph) ns g) x y
     = nx_edges_get g x y"
  by (induction ns arbitrary: g) (auto simp: edges_get_remove_node)

lemma nx_node_remove_edges_loop:
  "nx_node (fold (\<lambda>(source, target) graph.
       if nx_has_edge graph source target then nx_remove_edge source target graph else graph) es g)
     = nx_node g"
  by (induction es arbitrary: g) (auto split: prod.splits)

lemma nx_directed_remove_edges_loop:
  "nx_directed (fold (\<lambda>(source, target) graph.
       if nx_has_edge graph source target then nx_remove_edge source target graph else graph) es g)
     = nx_directed g"
  by (induction es arbitrary: g) (auto split: prod.splits)

lemma edges_get_remove_edges_loop_other:
  "(x, y) \<notin> set es \<Longrightarrow> nx_directed g \<or> (y, x) \<notin> set es \<Longrightarrow>
   nx_edges_get (fold (\<lambda>(source, target) graph.
       if nx_has_edge graph source target then nx_remove_edge source target graph else graph) es g) x y
     = nx_edges_get g x y"
proof (induction es arbitrary: g)
  case Nil
  show ?case by simp
next
  case (Cons e es)
  obtain u v where e: "e = (u, v)" by (cases e)
  define g1 where "g1 = (if nx_has_edge g u v then nx_remove_edge u v g else g)"
  have d: "nx_directed g1 = nx_directed g" by (simp add: g1_def)
  have "nx_edges_get g1 x y = nx_edges_get g x y"
    using Cons.prems by (auto simp: g1_def e edges_get_remove_edge)
  moreover have "nx_edges_get (fold (\<lambda>(source, target) graph.
       if nx_has_edge graph source target then nx_remove_edge source target graph else graph) es g1) x y
     = nx_edges_get g1 x y"
    using Cons.prems by (intro Cons.IH) (auto simp: d)
  ultimately show ?case by (simp add: e g1_def)
qed

lemma edges_get_remove_edges_loop_None:
  "nx_edges_get g x y = None \<Longrightarrow>
   nx_edges_get (fold (\<lambda>(source, target) graph.
       if nx_has_edge graph source target then nx_remove_edge source target graph else graph) es g) x y
     = None"
  by (induction es arbitrary: g) (auto simp: edges_get_remove_edge split: prod.splits)

lemma edges_get_remove_edges_loop_listed:
  "(x, y) \<in> set es \<Longrightarrow>
   nx_edges_get (fold (\<lambda>(source, target) graph.
       if nx_has_edge graph source target then nx_remove_edge source target graph else graph) es g) x y
     = None"
proof (induction es arbitrary: g)
  case Nil
  then show ?case by simp
next
  case (Cons e es)
  obtain u v where e: "e = (u, v)" by (cases e)
  define g1 where "g1 = (if nx_has_edge g u v then nx_remove_edge u v g else g)"
  show ?case
  proof (cases "(x, y) = (u, v)")
    case True
    then have "nx_edges_get g1 x y = None"
      by (auto simp: g1_def edges_get_remove_edge has_edge_iff)
    then show ?thesis
      using edges_get_remove_edges_loop_None [of g1 x y es] by (simp add: e g1_def)
  next
    case False
    then have "(x, y) \<in> set es" using Cons.prems by (auto simp: e)
    then show ?thesis using Cons.IH [of g1] by (simp add: e g1_def)
  qed
qed

lemma map_of_filter_keys:
  "map_of (filter (\<lambda>(k, a). k \<notin> S) xs) n = (if n \<in> S then None else map_of xs n)"
  by (induction xs) auto

subsection \<open>What networkx keeps true of an undirected graph\<close>

lemma und_new: "nx_undirected (nx_new False)"
  by (simp add: nx_undirected_def nx_new_def nx_edges_get_def)

lemma adj_fresh_key:
  "set (dict_keys (nx_adj g)) \<subseteq> set (dict_keys (nx_node g)) \<Longrightarrow> n \<notin> set (dict_keys (nx_node g))
   \<Longrightarrow> map_of (nx_adj g) n = None"
  by (auto simp: map_of_eq_None_iff)

lemma edges_get_fresh:
  assumes "map_of (nx_adj g) n = None"
  shows "nx_edges_get (g\<lparr>nx_adj := AList.update n [] (nx_adj g), nx_node := nd\<rparr>) a b = nx_edges_get g a b"
  using assms by (simp add: nx_edges_get_def update_conv')

lemma edges_get_ensure:
  "set (dict_keys (nx_adj g)) \<subseteq> set (dict_keys (nx_node g)) \<Longrightarrow>
   nx_edges_get (nx_ensure_node n g) a b = nx_edges_get g a b"
  using adj_fresh_key [of g n] by (simp add: nx_ensure_node_def edges_get_fresh)

lemma keys_ensure:
  "set (dict_keys (nx_adj g)) \<subseteq> set (dict_keys (nx_node g)) \<Longrightarrow>
   set (dict_keys (nx_adj (nx_ensure_node n g))) \<subseteq> set (dict_keys (nx_node (nx_ensure_node n g)))"
  by (auto simp: nx_ensure_node_def dom_update)

lemma nx_directed_ensure [simp]: "nx_directed (nx_ensure_node n g) = nx_directed g"
  by (simp add: nx_ensure_node_def)

lemma und_ensure: "nx_undirected g \<Longrightarrow> nx_undirected (nx_ensure_node n g)"
  unfolding nx_undirected_def
  using edges_get_ensure keys_ensure by simp

lemma nx_directed_add_node [simp]: "nx_directed (nx_add_node n d g) = nx_directed g"
  by (simp add: nx_add_node_def split: option.splits)

lemma und_add_node: "nx_undirected g \<Longrightarrow> nx_undirected (nx_add_node n d g)"
proof -
  assume u: "nx_undirected g"
  then have sub: "set (dict_keys (nx_adj g)) \<subseteq> set (dict_keys (nx_node g))"
    by (simp add: nx_undirected_def)
  have e: "nx_edges_get (nx_add_node n d g) a b = nx_edges_get g a b" for a b
  proof (cases "map_of (nx_node g) n")
    case None
    then have "n \<notin> set (dict_keys (nx_node g))" by (simp add: map_of_eq_None_iff)
    then have "map_of (nx_adj g) n = None" by (rule adj_fresh_key [OF sub])
    then show ?thesis using None by (simp add: nx_add_node_def edges_get_fresh)
  next
    case (Some old)
    then show ?thesis by (simp add: nx_add_node_def nx_edges_get_def)
  qed
  have k: "set (dict_keys (nx_adj (nx_add_node n d g))) \<subseteq> set (dict_keys (nx_node (nx_add_node n d g)))"
    using sub by (cases "map_of (nx_node g) n") (auto simp: nx_add_node_def dom_update)
  show ?thesis using u e k by (simp add: nx_undirected_def)
qed

lemma nx_directed_add_edge [simp]: "nx_directed (nx_add_edge u v d g) = nx_directed g"
  by (simp add: nx_add_edge_def Let_def)

lemma keys_adj_set: "fst ` set (adj_set u v dd a) = insert u (fst ` set a)"
  by (auto simp: adj_set_def dom_update)

lemma keys_adj_del: "fst ` set (adj_del u v a) = fst ` set a"
  by (cases "map_of a u") (auto simp: adj_del_def dom_update in_keys_iff)

lemma edges_get_eq: "nx_edges_get g x y = adj_get (nx_adj g) x y"
  by (simp add: nx_edges_get_def adj_get_def)

lemma adj_get_set:
  "adj_get (adj_set u v dd a) x y = (if x = u \<and> y = v then Some dd else adj_get a x y)"
  by (auto simp: adj_get_def map_of_adj_set update_conv' split: option.splits)

lemma adj_get_set2:
  "adj_get (adj_set v u dd (adj_set u v dd A)) a b =
      (if (a = u \<and> b = v) \<or> (a = v \<and> b = u) then Some dd else adj_get A a b)"
  by (cases "a = u"; cases "b = v"; cases "a = v"; cases "b = u") (simp_all add: adj_get_set)

lemma keys_map_snd [simp]: "dict_keys (map (\<lambda>(u, nb). (u, f u nb)) a) = dict_keys a"
  by (induction a) auto

lemma keys_map_snd_comp [simp]: "map (fst \<circ> (\<lambda>(u, nb). (u, f u nb))) a = dict_keys a"
  by (induction a) auto

lemma undI:
  assumes "\<not> nx_directed g" "set (dict_keys (nx_adj g)) \<subseteq> set (dict_keys (nx_node g))"
    "\<And>a b. nx_edges_get g a b = nx_edges_get g b a"
  shows "nx_undirected g"
  using assms unfolding nx_undirected_def by blast

lemma und_add_edge: "nx_undirected g \<Longrightarrow> nx_undirected (nx_add_edge u v d g)"
proof -
  assume u: "nx_undirected g"
  define g2 where "g2 = nx_ensure_node v (nx_ensure_node u g)"
  have u2: "nx_undirected g2" using u by (simp add: g2_def und_ensure)
  then have d2: "\<not> nx_directed g2"
    and sub2: "set (dict_keys (nx_adj g2)) \<subseteq> set (dict_keys (nx_node g2))"
    and sym2: "\<And>a b. nx_edges_get g2 a b = nx_edges_get g2 b a"
    unfolding nx_undirected_def by blast+
  have nodes: "u \<in> set (dict_keys (nx_node g2))" "v \<in> set (dict_keys (nx_node g2))"
    using has_node_ensure [of v "nx_ensure_node u g"] has_node_ensure [of u g]
    by (simp_all add: g2_def nx_has_node_def)
  define dd where "dd = dict_update (case map_of (nx_nbrs g2 u) v of None \<Rightarrow> [] | Some dd \<Rightarrow> dd) d"
  have eq: "nx_add_edge u v d g = g2\<lparr>nx_adj := adj_set v u dd (adj_set u v dd (nx_adj g2))\<rparr>"
    using d2 by (simp add: nx_add_edge_def Let_def g2_def dd_def)
  have e: "nx_edges_get (nx_add_edge u v d g) a b =
      (if (a = u \<and> b = v) \<or> (a = v \<and> b = u) then Some dd else nx_edges_get g2 a b)" for a b
    unfolding edges_get_eq eq by (simp add: adj_get_set2)
  show ?thesis
  proof (rule undI)
    show "\<not> nx_directed (nx_add_edge u v d g)" using d2 by (simp add: g2_def)
    show "set (dict_keys (nx_adj (nx_add_edge u v d g))) \<subseteq> set (dict_keys (nx_node (nx_add_edge u v d g)))"
      using sub2 nodes unfolding eq by (auto simp: keys_adj_set)
    show "nx_edges_get (nx_add_edge u v d g) a b = nx_edges_get (nx_add_edge u v d g) b a" for a b
      using sym2 [of a b] unfolding e by (cases "a = u"; cases "b = v"; cases "a = v"; cases "b = u") simp_all
  qed
qed

lemma und_remove_edge: "nx_undirected g \<Longrightarrow> nx_undirected (nx_remove_edge u v g)"
proof -
  assume u: "nx_undirected g"
  then have d: "\<not> nx_directed g"
    and sub: "set (dict_keys (nx_adj g)) \<subseteq> set (dict_keys (nx_node g))"
    and sym: "\<And>a b. nx_edges_get g a b = nx_edges_get g b a"
    unfolding nx_undirected_def by blast+
  have k: "set (dict_keys (nx_adj (nx_remove_edge u v g))) = set (dict_keys (nx_adj g))"
    by (simp add: nx_remove_edge_def Let_def keys_adj_del)
  show ?thesis
  proof (rule undI)
    show "\<not> nx_directed (nx_remove_edge u v g)" using d by simp
    show "set (dict_keys (nx_adj (nx_remove_edge u v g))) \<subseteq> set (dict_keys (nx_node (nx_remove_edge u v g)))"
      using sub k by simp
    show "nx_edges_get (nx_remove_edge u v g) a b = nx_edges_get (nx_remove_edge u v g) b a" for a b
      using sym [of a b] d by (auto simp: edges_get_remove_edge)
  qed
qed

lemma edges_get_remove_node_src: "nx_edges_get (nx_remove_node n g) n b = None"
  by (simp add: nx_remove_node_def Let_def nx_edges_get_def delete_conv')

lemma nbrs_key_iff: "x \<in> fst ` set (nx_nbrs g n) \<longleftrightarrow> nx_edges_get g n x \<noteq> None"
  by (cases "map_of (nx_adj g) n") (simp_all add: nx_nbrs_def nx_edges_get_def in_keys_iff)

lemma edges_get_remove_node_tgt:
  assumes "nx_directed g \<or> (\<forall>a b. nx_edges_get g a b = nx_edges_get g b a)"
  shows "nx_edges_get (nx_remove_node n g) a n = None"
proof (cases "a = n")
  case True
  then show ?thesis by (simp add: edges_get_remove_node_src)
next
  case False
  show ?thesis
  proof (cases "map_of (nx_adj g) a")
    case None
    then show ?thesis using False
      by (simp add: nx_remove_node_def Let_def nx_edges_get_def delete_conv' map_of_map_snd)
  next
    case (Some nba)
    have after: "nx_edges_get (nx_remove_node n g) a n =
        map_of (if nx_directed g \<or> a \<in> fst ` set (nx_nbrs g n) then AList.delete n nba else nba) n"
      using False Some
      by (simp add: nx_remove_node_def Let_def nx_edges_get_def delete_conv' map_of_map_snd)
    show ?thesis
    proof (cases "nx_directed g \<or> a \<in> fst ` set (nx_nbrs g n)")
      case True
      then show ?thesis unfolding after by (simp add: delete_conv')
    next
      case False
      then have sym: "nx_edges_get g a n = nx_edges_get g n a" using assms by blast
      have "nx_edges_get g n a = None" using False by (simp add: nbrs_key_iff)
      then have "map_of nba n = None" using sym Some by (simp add: nx_edges_get_def)
      then show ?thesis unfolding after using False by simp
    qed
  qed
qed

lemma und_remove_node: "nx_undirected g \<Longrightarrow> nx_undirected (nx_remove_node n g)"
proof -
  assume u: "nx_undirected g"
  then have d: "\<not> nx_directed g"
    and sub: "set (dict_keys (nx_adj g)) \<subseteq> set (dict_keys (nx_node g))"
    and sym: "\<And>a b. nx_edges_get g a b = nx_edges_get g b a"
    unfolding nx_undirected_def by blast+
  have "nx_directed g \<or> (\<forall>a b. nx_edges_get g a b = nx_edges_get g b a)"
    using sym by blast
  then have tgt: "nx_edges_get (nx_remove_node n g) a n = None" for a
    by (rule edges_get_remove_node_tgt)
  show ?thesis
  proof (rule undI)
    show "\<not> nx_directed (nx_remove_node n g)" using d by simp
    show "set (dict_keys (nx_adj (nx_remove_node n g))) \<subseteq> set (dict_keys (nx_node (nx_remove_node n g)))"
    proof -
      have "dict_keys (nx_adj (nx_remove_node n g)) = removeAll n (dict_keys (nx_adj g))"
        by (simp add: nx_remove_node_def Let_def delete_keys)
      moreover have "dict_keys (nx_node (nx_remove_node n g)) = removeAll n (dict_keys (nx_node g))"
        by (simp add: delete_keys)
      ultimately show ?thesis using sub by (simp only: set_removeAll) blast
    qed
    show "nx_edges_get (nx_remove_node n g) a b = nx_edges_get (nx_remove_node n g) b a" for a b
    proof (cases "a = n")
      case True
      then show ?thesis by (simp add: edges_get_remove_node_src tgt)
    next
      case an: False
      show ?thesis
      proof (cases "b = n")
        case True
        then show ?thesis by (simp add: edges_get_remove_node_src tgt)
      next
        case False
        then show ?thesis using an sym [of a b] by (simp add: edges_get_remove_node)
      qed
    qed
  qed
qed

lemma keys_delete: "fst ` set (AList.delete k al) = fst ` set al - {k}"
  by (force simp: AList.delete_eq)

lemma edges_get_remove_node_None:
  "nx_edges_get g a b = None \<Longrightarrow> nx_edges_get (nx_remove_node m g) a b = None"
proof (cases "map_of (nx_adj g) a")
  case None
  then show ?thesis
    by (cases "a = m") (simp_all add: nx_remove_node_def Let_def nx_edges_get_def delete_conv' map_of_map_snd)
next
  case (Some nb)
  assume "nx_edges_get g a b = None"
  then have "map_of nb b = None" using Some by (simp add: nx_edges_get_def)
  then show ?thesis using Some
    by (cases "a = m")
       (simp_all add: nx_remove_node_def Let_def nx_edges_get_def delete_conv' map_of_map_snd)
qed

abbreviation (input) remove_nodes_loop :: "string list \<Rightarrow> nxgraph \<Rightarrow> nxgraph" where
  "remove_nodes_loop ns g \<equiv>
     fold (\<lambda>node graph. if nx_has_node graph node then nx_remove_node node graph else graph) ns g"

lemma edges_get_remove_nodes_loop_None:
  "nx_edges_get g a b = None \<Longrightarrow> nx_edges_get (remove_nodes_loop ns g) a b = None"
  by (induction ns arbitrary: g) (simp_all add: edges_get_remove_node_None)

lemma sym_remove_node:
  assumes "nx_directed g \<or> nx_undirected g"
  shows "nx_directed (nx_remove_node n g) \<or> nx_undirected (nx_remove_node n g)"
  using assms und_remove_node by auto

lemma edges_get_remove_nodes_loop_at:
  assumes "nx_directed g \<or> nx_undirected g" "x \<in> set ns" "nx_has_node g x"
  shows "nx_edges_get (remove_nodes_loop ns g) x y = None
       \<and> nx_edges_get (remove_nodes_loop ns g) y x = None"
  using assms
proof (induction ns arbitrary: g)
  case Nil
  then show ?case by simp
next
  case (Cons n ns)
  define g1 where "g1 = (if nx_has_node g n then nx_remove_node n g else g)"
  have inv1: "nx_directed g1 \<or> nx_undirected g1"
    using Cons.prems(1) sym_remove_node by (simp add: g1_def)
  have step: "remove_nodes_loop (n # ns) g = remove_nodes_loop ns g1"
    by (simp add: g1_def)
  show ?case
  proof (cases "x = n")
    case True
    have h: "nx_directed g \<or> (\<forall>a b. nx_edges_get g a b = nx_edges_get g b a)"
      using Cons.prems(1) by (auto simp: nx_undirected_def)
    have "nx_edges_get g1 x y = None" "nx_edges_get g1 y x = None"
      using Cons.prems(3) True edges_get_remove_node_tgt [OF h]
      by (simp_all add: g1_def edges_get_remove_node_src)
    then show ?thesis unfolding step by (simp add: edges_get_remove_nodes_loop_None)
  next
    case False
    then have "x \<in> set ns" using Cons.prems(2) by simp
    moreover have "nx_has_node g1 x"
      using Cons.prems(3) False by (simp add: g1_def nx_has_node_def keys_delete)
    ultimately show ?thesis unfolding step using Cons.IH [OF inv1] by blast
  qed
qed

abbreviation (input) remove_edges_loop :: "(string \<times> string) list \<Rightarrow> nxgraph \<Rightarrow> nxgraph" where
  "remove_edges_loop es g \<equiv>
     fold (\<lambda>(source, target) graph.
       if nx_has_edge graph source target then nx_remove_edge source target graph else graph) es g"

lemma und_remove_edges_loop: "nx_undirected g \<Longrightarrow> nx_undirected (remove_edges_loop es g)"
  by (induction es arbitrary: g) (auto simp: und_remove_edge)

lemma und_remove_nodes_loop: "nx_undirected g \<Longrightarrow> nx_undirected (remove_nodes_loop ns g)"
  by (induction ns arbitrary: g) (auto simp: und_remove_node)

lemma edges_get_remove_edges_loop_rev:
  assumes "nx_undirected g" "(x, y) \<in> set es"
  shows "nx_edges_get (remove_edges_loop es g) y x = None"
proof -
  have "nx_undirected (remove_edges_loop es g)" using assms(1) by (rule und_remove_edges_loop)
  then have "nx_edges_get (remove_edges_loop es g) y x = nx_edges_get (remove_edges_loop es g) x y"
    unfolding nx_undirected_def by blast
  then show ?thesis using assms(2) by (simp add: edges_get_remove_edges_loop_listed)
qed

subsection \<open>Reachable states hold undirected graphs\<close>

lemma und_add_nodes_from: "nx_undirected g \<Longrightarrow> nx_undirected (add_nodes_from ns g)"
  unfolding add_nodes_from_def
  by (induction ns arbitrary: g) (auto simp: und_add_node)

lemma und_add_edges_from: "nx_undirected g \<Longrightarrow> nx_undirected (add_edges_from es g)"
  unfolding add_edges_from_def
  by (induction es arbitrary: g) (auto simp: und_add_edge)

lemma und_build: "nx_undirected (nx_build False ns es)"
  by (simp add: nx_build_def und_add_edges_from und_add_nodes_from und_new)

lemma und_or_new:
  "(case fl of None \<Rightarrow> True | Some f \<Rightarrow> \<not> gml_directed f)
   \<Longrightarrow> nx_undirected (or_new_graph (load_nx_graph fl))"
proof (cases fl)
  case None
  then show ?thesis by (simp add: or_new_graph_def load_nx_graph_def und_new)
next
  case (Some f)
  assume "case fl of None \<Rightarrow> True | Some f \<Rightarrow> \<not> gml_directed f"
  then have "nx_undirected (read_graphml f)"
    using Some und_build [of "gml_nodes f" "gml_edges f"] by (simp add: read_graphml_def)
  then show ?thesis using Some by (simp add: or_new_graph_def load_nx_graph_def und_new)
qed

lemma su_I:
  "nx_undirected (sgraph s) \<Longrightarrow> (case graphml_file s of None \<Rightarrow> True | Some f \<Rightarrow> \<not> gml_directed f)
   \<Longrightarrow> storage_undirected s"
  by (simp add: storage_undirected_def)

lemma su_same:
  "storage_undirected s \<Longrightarrow> sgraph s' = sgraph s \<Longrightarrow> graphml_file s' = graphml_file s
   \<Longrightarrow> storage_undirected s'"
  by (simp add: storage_undirected_def)

lemma su_graph:
  "storage_undirected s \<Longrightarrow> nx_undirected g \<Longrightarrow> storage_undirected (s\<lparr>sgraph := g\<rparr>)"
  by (simp add: storage_undirected_def)

lemma su_get_graph: "storage_undirected s \<Longrightarrow> storage_undirected (get_graph mp s)"
  by (auto simp: get_graph_def storage_undirected_def logger_def Let_def und_or_new)

lemma su_logger [simp]: "storage_undirected (logger lvl msg s) = storage_undirected s"
  by (simp add: storage_undirected_def logger_def)

lemma su_start:
  "(case fl of None \<Rightarrow> True | Some f \<Rightarrow> \<not> gml_directed f)
   \<Longrightarrow> storage_undirected (initialize flag (post_init ns wd fl peers))"
  using und_or_new [of fl]
  by (auto simp: storage_undirected_def initialize_def post_init_def Let_def logger_def
      split: option.splits)

lemma su_peer: "storage_undirected s \<Longrightarrow> \<not> nx_directed g \<Longrightarrow> storage_undirected (peer_persisted g s)"
  by (simp add: storage_undirected_def peer_persisted_def write_graphml_def)

lemma su_und: "storage_undirected s \<Longrightarrow> nx_undirected (sgraph s)"
  by (simp add: storage_undirected_def)

lemma su_upsert_node: "storage_undirected s \<Longrightarrow> storage_undirected (snd (upsert_node mp s n d))"
  using su_get_graph [of s mp]
  by (simp add: upsert_node_def Let_def su_graph su_und und_add_node)

lemma su_upsert_edge: "storage_undirected s \<Longrightarrow> storage_undirected (snd (upsert_edge mp s a b d))"
  using su_get_graph [of s mp]
  by (simp add: upsert_edge_def Let_def su_graph su_und und_add_edge)

lemma su_delete_node: "storage_undirected s \<Longrightarrow> storage_undirected (delete_node mp s n)"
  using su_get_graph [of s mp]
  by (simp add: delete_node_def Let_def su_graph su_und und_remove_node)

lemma su_remove_nodes: "storage_undirected s \<Longrightarrow> storage_undirected (remove_nodes mp s ns)"
  using su_get_graph [of s mp]
  by (simp add: remove_nodes_def Let_def su_graph su_und und_remove_nodes_loop)

lemma su_remove_edges: "storage_undirected s \<Longrightarrow> storage_undirected (remove_edges mp s es)"
  using su_get_graph [of s mp]
  by (simp add: remove_edges_def Let_def su_graph su_und und_remove_edges_loop)

lemma su_get_knowledge_graph:
  "storage_undirected s \<Longrightarrow> storage_undirected (snd (get_knowledge_graph ho mp s l d))"
  using su_get_graph [of s mp]
  by (simp add: get_knowledge_graph_def Let_def split: option.splits)

lemma su_index_done_callback:
  "storage_undirected s \<Longrightarrow> storage_undirected (snd (index_done_callback mp io s))"
proof -
  assume su: "storage_undirected s"
  show ?thesis
  proof (cases "mp \<and> storage_updated s")
    case True
    have "nx_undirected (or_new_graph (load_nx_graph (graphml_file s)))"
      using su by (intro und_or_new) (simp add: storage_undirected_def)
    then show ?thesis using True su
      by (simp add: index_done_callback_def Let_def storage_undirected_def logger_def)
  next
    case False
    have g: "storage_undirected (get_graph mp s)" using su by (rule su_get_graph)
    then show ?thesis using False
      by (cases io)
         (auto simp: index_done_callback_def Let_def write_nx_graph_def storage_undirected_def
            logger_def set_all_update_flags_def write_graphml_def nx_undirected_def)
  qed
qed

lemma reachable_undirected: "reachable s \<Longrightarrow> storage_undirected s"
proof (induction rule: reachable.induct)
  case (start fl flag ns wd peers)
  then show ?case by (rule su_start)
next
  case (peer s g)
  then show ?case by (simp add: su_peer)
next
  case (r_upsert_node s mp n d)
  then show ?case by (simp add: su_upsert_node)
next
  case (r_upsert_edge s mp a b d)
  then show ?case by (simp add: su_upsert_edge)
next
  case (r_delete_node s mp n)
  then show ?case by (simp add: su_delete_node)
next
  case (r_remove_nodes s mp ns)
  then show ?case by (simp add: su_remove_nodes)
next
  case (r_remove_edges s mp es)
  then show ?case by (simp add: su_remove_edges)
next
  case (r_get_knowledge_graph s ho mp l d)
  then show ?case by (simp add: su_get_knowledge_graph)
next
  case (r_index_done_callback s mp io)
  then show ?case by (simp add: su_index_done_callback)
qed (simp_all add: has_node_def has_edge_def get_node_def node_degree_def edge_degree_def
      get_edge_def get_node_edges_def get_all_labels_def Let_def su_get_graph)

lemma reachable_fresh: "reachable fresh_storage"
  unfolding fresh_storage_def by (rule reachable.start) simp

lemma reachable_abc: "reachable abc_storage"
  unfolding abc_storage_def
  by (intro reachable.r_upsert_edge reachable.r_upsert_node reachable_fresh)

lemma und_abc: "nx_undirected (sgraph abc_storage)"
  using reachable_abc by (intro su_und reachable_undirected)

subsection \<open>Persisting: conflicts and what is written\<close>

text \<open>
  C2, as amended. When \<open>is_multiprocess\<close> is set and the update flag is set on entry,
  \<open>index_done_callback\<close> reports failure and changes nothing but this: the graph in
  memory becomes the one in the file (a new empty graph when the file is absent or holds
  no node), the flag is cleared and the warning is logged. The file is not written.
  Nothing is said of a process with \<open>is_multiprocess\<close> not set, where the conflict test
  is not made.
\<close>

theorem index_done_callback_conflict:
  assumes "storage_updated s"
  shows "index_done_callback True io s =
     (False,
      s\<lparr>sgraph := (case graphml_file s of None \<Rightarrow> nx_new False
                   | Some f \<Rightarrow> if nx_node (read_graphml f) = [] then nx_new False
                              else read_graphml f),
        storage_updated := False,
        logged := logged s @ [(WARNING, ''Graph for '' @ namespace s
                                 @ '' was updated by another process, reloading...'')]\<rparr>)"
  using assms
  by (simp add: index_done_callback_def logger_def or_new_graph_def load_nx_graph_def Let_def
      split: option.splits)

text \<open>The theorem at \<open>stale_storage\<close>: the call fails, the file is untouched, the flag is
  cleared and the graph in memory is the peer's; the node \<open>A\<close> added locally is gone.\<close>

theorem index_done_callback_conflict_witness:
  "storage_updated stale_storage
   \<and> dict_keys (nx_node (sgraph stale_storage)) = [''A'']
   \<and> fst (index_done_callback True WriteOk stale_storage) = False
   \<and> graphml_file (snd (index_done_callback True WriteOk stale_storage)) = graphml_file stale_storage
   \<and> storage_updated (snd (index_done_callback True WriteOk stale_storage)) = False
   \<and> dict_keys (nx_node (sgraph (snd (index_done_callback True WriteOk stale_storage)))) = [''P'']"
proof -
  have h: "storage_updated stale_storage"
    by (simp add: storage_eval)
  have f: "graphml_file stale_storage =
      Some \<lparr>gml_directed = False, gml_nodes = [(''P'', [])], gml_edges = []\<rparr>"
    by (simp add: storage_eval)
  have a: "dict_keys (nx_node (sgraph stale_storage)) = [''A'']"
    by (simp add: storage_eval)
  show ?thesis
    using index_done_callback_conflict [OF h, of WriteOk] h a
    by (simp add: f) (simp add: storage_eval)
qed

text \<open>C2 as stated fails when \<open>is_multiprocess\<close> is not set: at \<open>stale_storage\<close> the flag
  is set on entry, and the call writes the file and reports success.\<close>

theorem index_done_callback_conflict_counterexample:
  "storage_updated stale_storage
   \<and> fst (index_done_callback False WriteOk stale_storage) = True
   \<and> last (logged (snd (index_done_callback False WriteOk stale_storage)))
       = (INFO, ''Writing graph with 1 nodes, 0 edges'')"
  by (simp add: index_done_callback_def write_nx_graph_def set_all_update_flags_def storage_eval
      nx_number_of_edges_def nx_deg_def str_nat_digit)

text \<open>
  C1, as amended. On a successful \<open>index_done_callback\<close> the graph handed to the file
  writer is the graph that \<open>_get_graph\<close> returns, as it is: the file holds its nodes and
  edges in the graph's own iteration order, and \<open>_stabilize_graph\<close> is not applied. The
  graph in memory stays that graph.
\<close>

theorem index_done_callback_writes_graph:
  assumes "fst (index_done_callback mp io s) = True"
  shows "graphml_file (snd (index_done_callback mp io s)) = Some (write_graphml (sgraph (get_graph mp s)))
       \<and> sgraph (snd (index_done_callback mp io s)) = sgraph (get_graph mp s)"
  using assms
  by (auto simp add: index_done_callback_def write_nx_graph_def set_all_update_flags_def
      logger_def Let_def split: if_splits write_outcome.splits)

text \<open>The theorem at \<open>unsorted_storage\<close>: the file lists \<open>B\<close> before \<open>A\<close>.\<close>

theorem index_done_callback_writes_graph_witness:
  "fst (index_done_callback False WriteOk unsorted_storage) = True
   \<and> graphml_file (snd (index_done_callback False WriteOk unsorted_storage)) =
       Some \<lparr>gml_directed = False, gml_nodes = [(''B'', []), (''A'', [])], gml_edges = []\<rparr>"
proof -
  have h: "fst (index_done_callback False WriteOk unsorted_storage) = True"
    by (simp add: index_done_callback_def write_nx_graph_def set_all_update_flags_def storage_eval)
  show ?thesis
    using index_done_callback_writes_graph [OF h] h
    by (simp add: storage_eval)
qed

text \<open>C1 as stated fails: at \<open>unsorted_storage\<close> the call succeeds and the file it writes
  is not the one \<open>_stabilize_graph\<close> of the graph would give.\<close>

theorem index_done_callback_stabilize_counterexample:
  "fst (index_done_callback False WriteOk unsorted_storage) = True
   \<and> graphml_file (snd (index_done_callback False WriteOk unsorted_storage))
       \<noteq> Some (write_graphml (stabilize_graph (sgraph unsorted_storage)))"
  by (simp add: index_done_callback_def write_nx_graph_def set_all_update_flags_def
      stabilize_graph_def storage_eval)

subsection \<open>Queries about absent nodes\<close>

text \<open>
  C6. The claim asks that no query about an absent node or edge raises. \<open>edge_degree\<close>
  does: on a storage with no node, \<open>graph.degree\<close> of either id is a \<open>DegreeView\<close>, not
  an \<open>int\<close>, and their sum raises \<open>TypeError\<close>.
\<close>

theorem edge_degree_absent_raises:
  "edge_degree False fresh_storage ''A'' ''B'' = (Inl TypeError, fresh_storage)"
  by (simp add: edge_degree_def nx_degree_def storage_eval)

subsection \<open>Upserting an edge\<close>

text \<open>
  C9, as amended. For an attribute dict \<open>attrs\<close> none of whose keys is \<open>self\<close>,
  \<open>u_of_edge\<close> or \<open>v_of_edge\<close>, and whatever the graph was, \<open>upsert_edge(src, tgt, attrs)\<close>
  returns without error and afterwards \<open>has_node\<close> holds of both endpoints,
  \<open>has_edge(src, tgt)\<close> holds, \<open>get_edge(src, tgt)\<close> is a dict in which every key of
  \<open>attrs\<close> has the value \<open>attrs\<close> gives it, and an endpoint that was not a node before
  has the empty attribute dict. With one of these keys the call raises \<open>TypeError\<close> and
  the graph is the one \<open>_get_graph\<close> returned.
\<close>

theorem upsert_edge_creates_endpoints:
  "(\<not> kwargs_clash [''self'', ''u_of_edge'', ''v_of_edge''] attrs \<longrightarrow>
      fst (upsert_edge mp s src tgt attrs) = None
      \<and> fst (has_node mp (snd (upsert_edge mp s src tgt attrs)) src)
      \<and> fst (has_node mp (snd (upsert_edge mp s src tgt attrs)) tgt)
      \<and> fst (has_edge mp (snd (upsert_edge mp s src tgt attrs)) src tgt)
      \<and> (\<exists>dd. fst (get_edge mp (snd (upsert_edge mp s src tgt attrs)) src tgt) = Some dd
             \<and> (distinct (dict_keys attrs) \<longrightarrow> (\<forall>(k, v) \<in> set attrs. map_of dd k = Some v)))
      \<and> (\<not> fst (has_node mp s src) \<longrightarrow>
            fst (get_node mp (snd (upsert_edge mp s src tgt attrs)) src) = Some [])
      \<and> (\<not> fst (has_node mp s tgt) \<longrightarrow>
            fst (get_node mp (snd (upsert_edge mp s src tgt attrs)) tgt) = Some []))
   \<and> (kwargs_clash [''self'', ''u_of_edge'', ''v_of_edge''] attrs \<longrightarrow>
        upsert_edge mp s src tgt attrs = (Some TypeError, get_graph mp s))"
proof (intro conjI impI)
  assume clash: "kwargs_clash [''self'', ''u_of_edge'', ''v_of_edge''] attrs"
  then show "upsert_edge mp s src tgt attrs = (Some TypeError, get_graph mp s)"
    by (simp add: upsert_edge_def Let_def)
next
  assume ok: "\<not> kwargs_clash [''self'', ''u_of_edge'', ''v_of_edge''] attrs"
  let ?g = "sgraph (get_graph mp s)"
  have up: "upsert_edge mp s src tgt attrs =
      (None, (get_graph mp s)\<lparr>sgraph := nx_add_edge src tgt attrs ?g\<rparr>)"
    using ok by (simp add: upsert_edge_def Let_def)
  obtain old where old: "nx_edges_get (nx_add_edge src tgt attrs ?g) src tgt = Some (dict_update old attrs)"
    using edges_get_add_edge by blast
  have carries: "distinct (dict_keys attrs) \<longrightarrow>
      (\<forall>(k, v) \<in> set attrs. map_of (dict_update old attrs) k = Some v)"
    by (auto simp: dict_update_carries)
  show "fst (upsert_edge mp s src tgt attrs) = None"
    by (simp add: up)
  show "fst (has_node mp (snd (upsert_edge mp s src tgt attrs)) src)"
    by (simp add: up has_node_def Let_def has_node_add_edge)
  show "fst (has_node mp (snd (upsert_edge mp s src tgt attrs)) tgt)"
    by (simp add: up has_node_def Let_def has_node_add_edge)
  show "fst (has_edge mp (snd (upsert_edge mp s src tgt attrs)) src tgt)"
    using old by (simp add: up has_edge_def Let_def has_edge_iff)
  show "\<exists>dd. fst (get_edge mp (snd (upsert_edge mp s src tgt attrs)) src tgt) = Some dd
          \<and> (distinct (dict_keys attrs) \<longrightarrow> (\<forall>(k, v) \<in> set attrs. map_of dd k = Some v))"
    using old carries by (simp add: up get_edge_def Let_def)
  show "fst (get_node mp (snd (upsert_edge mp s src tgt attrs)) src) = Some []"
    if "\<not> fst (has_node mp s src)"
    using that by (simp add: up has_node_def get_node_def Let_def nodes_get_add_edge)
  show "fst (get_node mp (snd (upsert_edge mp s src tgt attrs)) tgt) = Some []"
    if "\<not> fst (has_node mp s tgt)"
    using that by (simp add: up has_node_def get_node_def Let_def nodes_get_add_edge)
qed

text \<open>The theorem on the storage without nodes: both endpoints of the new edge are
  created with no attributes, and the edge carries the weight.\<close>

theorem upsert_edge_creates_endpoints_witness:
  "\<not> kwargs_clash [''self'', ''u_of_edge'', ''v_of_edge''] [(''weight'', ''1'')]
   \<and> \<not> fst (has_node False fresh_storage ''A'')
   \<and> \<not> fst (has_node False fresh_storage ''B'')
   \<and> fst (upsert_edge False fresh_storage ''A'' ''B'' [(''weight'', ''1'')]) = None
   \<and> fst (has_node False (snd (upsert_edge False fresh_storage ''A'' ''B'' [(''weight'', ''1'')])) ''A'')
   \<and> fst (has_node False (snd (upsert_edge False fresh_storage ''A'' ''B'' [(''weight'', ''1'')])) ''B'')
   \<and> fst (get_node False (snd (upsert_edge False fresh_storage ''A'' ''B'' [(''weight'', ''1'')])) ''A'')
       = Some []
   \<and> fst (get_node False (snd (upsert_edge False fresh_storage ''A'' ''B'' [(''weight'', ''1'')])) ''B'')
       = Some []
   \<and> fst (get_edge False (snd (upsert_edge False fresh_storage ''A'' ''B'' [(''weight'', ''1'')])) ''A'' ''B'')
       = Some [(''weight'', ''1'')]"
proof -
  have k: "\<not> kwargs_clash [''self'', ''u_of_edge'', ''v_of_edge''] [(''weight'', ''1'')]"
    by (simp add: kwargs_clash_def)
  have a: "\<not> fst (has_node False fresh_storage ''A'')" "\<not> fst (has_node False fresh_storage ''B'')"
    by (simp_all add: has_node_def nx_has_node_def storage_eval)
  have e: "fst (get_edge False (snd (upsert_edge False fresh_storage ''A'' ''B'' [(''weight'', ''1'')])) ''A'' ''B'')
       = Some [(''weight'', ''1'')]"
    by (simp add: get_edge_def nx_edges_get_def dict_update_def storage_eval)
  show ?thesis
    using upsert_edge_creates_endpoints [of "[(''weight'', ''1'')]" False fresh_storage "''A''" "''B''"] k a e
    by simp
qed

text \<open>C9 as stated fails for an attribute dict with the key \<open>self\<close>: the call raises, and
  afterwards neither endpoint is a node and there is no edge.\<close>

theorem upsert_edge_kwargs_counterexample:
  "fst (upsert_edge False fresh_storage ''A'' ''B'' [(''self'', ''x'')]) = Some TypeError
   \<and> \<not> fst (has_node False (snd (upsert_edge False fresh_storage ''A'' ''B'' [(''self'', ''x'')])) ''A'')
   \<and> \<not> fst (has_node False (snd (upsert_edge False fresh_storage ''A'' ''B'' [(''self'', ''x'')])) ''B'')
   \<and> \<not> fst (has_edge False (snd (upsert_edge False fresh_storage ''A'' ''B'' [(''self'', ''x'')])) ''A'' ''B'')"
  by (simp add: has_node_def has_edge_def nx_has_node_def nx_has_edge_def storage_eval)

subsection \<open>Subgraph queries\<close>

text \<open>
  C5. On the graph with the nodes \<open>A\<close>, \<open>B\<close>, \<open>C\<close> and the undirected edges \<open>A - B\<close>,
  \<open>B - C\<close>, \<open>get_knowledge_graph("B", max_depth=1)\<close> returns the three nodes and the two
  edges, whatever the interpreter's hash order and the process mode. The radius counts
  edges from the first matching node: for the label \<open>A\<close> and the same depth, \<open>C\<close> and the
  edge \<open>B - C\<close> are left out.
\<close>

theorem get_knowledge_graph_abc:
  "fst (get_knowledge_graph ho mp abc_storage ''B'' 1) =
     \<lparr>kg_nodes =
        [\<lparr>kn_id = ''A'', kn_labels = [''A''], kn_properties = []\<rparr>,
         \<lparr>kn_id = ''B'', kn_labels = [''B''], kn_properties = []\<rparr>,
         \<lparr>kn_id = ''C'', kn_labels = [''C''], kn_properties = []\<rparr>],
      kg_edges =
        [\<lparr>ke_id = ''A-B'', ke_type = ''DIRECTED'', ke_source = ''A'', ke_target = ''B'',
           ke_properties = []\<rparr>,
         \<lparr>ke_id = ''B-C'', ke_type = ''DIRECTED'', ke_source = ''B'', ke_target = ''C'',
           ke_properties = []\<rparr>]\<rparr>
   \<and> fst (get_knowledge_graph ho mp abc_storage ''A'' 1) =
     \<lparr>kg_nodes =
        [\<lparr>kn_id = ''A'', kn_labels = [''A''], kn_properties = []\<rparr>,
         \<lparr>kn_id = ''B'', kn_labels = [''B''], kn_properties = []\<rparr>],
      kg_edges =
        [\<lparr>ke_id = ''A-B'', ke_type = ''DIRECTED'', ke_source = ''A'', ke_target = ''B'',
           ke_properties = []\<rparr>]\<rparr>"
  by (simp add: abc_storage_eq kg_eval)

text \<open>
  C7, as amended. \<open>get_knowledge_graph\<close> has no error result. When the label is not
  \<open>"*"\<close> and is a substring of no node id, it returns no nodes and no edges and logs the
  warning. On a graph without nodes, \<open>get_knowledge_graph("*")\<close> returns no nodes and no
  edges; there it logs no warning but the count of the (empty) result.
\<close>

theorem get_knowledge_graph_empty_answer:
  "(node_label \<noteq> ''*'' \<and> (\<forall>n \<in> set (dict_keys (nx_node (sgraph (get_graph mp s)))). \<not> sublist node_label n)
      \<longrightarrow> get_knowledge_graph ho mp s node_label max_depth =
           (\<lparr>kg_nodes = [], kg_edges = []\<rparr>,
            logger WARNING (''No nodes found with label '' @ node_label) (get_graph mp s)))
   \<and> (nx_node (sgraph (get_graph mp s)) = [] \<and> nx_adj (sgraph (get_graph mp s)) = []
      \<longrightarrow> get_knowledge_graph ho mp s ''*'' max_depth =
           (\<lparr>kg_nodes = [], kg_edges = []\<rparr>,
            logger INFO ''Subgraph query successful | Node count: 0 | Edge count: 0''
              (get_graph mp s)))"
proof (intro conjI impI)
  assume a: "node_label \<noteq> ''*'' \<and> (\<forall>n \<in> set (dict_keys (nx_node (sgraph (get_graph mp s)))). \<not> sublist node_label n)"
  then have "filter (\<lambda>n. str_contains node_label n) (dict_keys (nx_node (sgraph (get_graph mp s)))) = []"
    by (simp add: filter_empty_conv str_contains_iff)
  then have "candidate_subgraph ho (sgraph (get_graph mp s)) node_label max_depth = None"
    using a by (simp add: candidate_subgraph_def)
  then show "get_knowledge_graph ho mp s node_label max_depth =
           (\<lparr>kg_nodes = [], kg_edges = []\<rparr>,
            logger WARNING (''No nodes found with label '' @ node_label) (get_graph mp s))"
    by (simp add: get_knowledge_graph_def)
next
  assume e: "nx_node (sgraph (get_graph mp s)) = [] \<and> nx_adj (sgraph (get_graph mp s)) = []"
  then have "candidate_subgraph ho (sgraph (get_graph mp s)) ''*'' max_depth
      = Some (nx_new (nx_directed (sgraph (get_graph mp s))))"
    by (simp add: candidate_subgraph_def nx_copy_empty)
  then show "get_knowledge_graph ho mp s ''*'' max_depth =
           (\<lparr>kg_nodes = [], kg_edges = []\<rparr>,
            logger INFO ''Subgraph query successful | Node count: 0 | Edge count: 0''
              (get_graph mp s))"
    by (simp add: get_knowledge_graph_def Let_def truncate_subgraph_def project_subgraph_def nx_new_def
       nx_edges_def adj_triples_def max_graph_nodes_def str_nat_digit)
qed

text \<open>The theorem for the label \<open>Z\<close> on the graph \<open>A - B - C\<close>, and for \<open>"*"\<close> on the
  storage without nodes.\<close>

theorem get_knowledge_graph_empty_answer_witness:
  "dict_keys (nx_node (sgraph (get_graph False abc_storage))) = [''A'', ''B'', ''C'']
   \<and> get_knowledge_graph id False abc_storage ''Z'' 5 =
       (\<lparr>kg_nodes = [], kg_edges = []\<rparr>,
        logger WARNING ''No nodes found with label Z'' abc_storage)
   \<and> nx_node (sgraph (get_graph False fresh_storage)) = []
   \<and> get_knowledge_graph id False fresh_storage ''*'' 5 =
       (\<lparr>kg_nodes = [], kg_edges = []\<rparr>,
        logger INFO ''Subgraph query successful | Node count: 0 | Edge count: 0'' fresh_storage)"
proof -
  have g: "get_graph False abc_storage = abc_storage" "get_graph False fresh_storage = fresh_storage"
    by (simp_all add: get_graph_clean abc_storage_eq) (simp add: storage_eval)
  have a: "\<forall>n \<in> set (dict_keys (nx_node (sgraph (get_graph False abc_storage)))). \<not> sublist ''Z'' n"
    unfolding g by (simp add: abc_storage_eq str_contains_iff [symmetric])
  have e: "nx_node (sgraph (get_graph False fresh_storage)) = [] \<and> nx_adj (sgraph (get_graph False fresh_storage)) = []"
    unfolding g by (simp add: storage_eval)
  show ?thesis
    using get_knowledge_graph_empty_answer [of "''Z''" False abc_storage id 5]
      get_knowledge_graph_empty_answer [of "''Z''" False fresh_storage id 5] a e
    by (simp add: g) (simp add: abc_storage_eq)
qed

text \<open>C7 as stated fails for the label \<open>"*"\<close>: it is a substring of none of the ids \<open>A\<close>,
  \<open>B\<close>, \<open>C\<close>, and the result is the whole graph, with no warning logged.\<close>

theorem get_knowledge_graph_star_counterexample:
  "dict_keys (nx_node (sgraph (get_graph False abc_storage))) = [''A'', ''B'', ''C'']
   \<and> \<not> sublist ''*'' ''A'' \<and> \<not> sublist ''*'' ''B'' \<and> \<not> sublist ''*'' ''C''
   \<and> map kn_id (kg_nodes (fst (get_knowledge_graph id False abc_storage ''*'' 5))) = [''A'', ''B'', ''C'']
   \<and> map ke_id (kg_edges (fst (get_knowledge_graph id False abc_storage ''*'' 5))) = [''A-B'', ''B-C'']
   \<and> logged (snd (get_knowledge_graph id False abc_storage ''*'' 5)) =
       logged abc_storage @ [(INFO, ''Subgraph query successful | Node count: 3 | Edge count: 2'')]"
  by (simp add: abc_storage_eq kg_eval str_contains_iff [symmetric] logger_def str_nat_digit)

subsection \<open>Deleting\<close>

text \<open>
  C8, as amended. \<open>delete_node\<close> of an id that is not a node changes nothing but the log,
  which gets the warning (the flag and graph are those \<open>_get_graph\<close> leaves).
  \<open>remove_nodes\<close> keeps exactly the nodes that are not listed, in their order and with
  their attributes, and every edge between two of them with its attributes; a listed id
  that is not a node is skipped; every edge at a node it removes goes with the node.
  \<open>remove_edges\<close> keeps every node, leaves no listed edge (in an undirected graph: in
  neither orientation), and keeps every edge that is not listed (in an undirected graph:
  listed in neither orientation) with its attributes. None of the three has an error
  result. The two statements about the other end of an edge are for graphs as networkx
  keeps them: directed, or undirected with every edge stored under both endpoints.
\<close>

theorem deletion_frame:
  "(\<not> fst (has_node mp s node_id) \<longrightarrow>
      delete_node mp s node_id =
        logger WARNING (''Node '' @ node_id @ '' not found in the graph for deletion.'') (get_graph mp s))
   \<and> nx_node (sgraph (remove_nodes mp s nodes))
       = filter (\<lambda>(n, a). n \<notin> set nodes) (nx_node (sgraph (get_graph mp s)))
   \<and> (\<forall>n. fst (has_node mp (remove_nodes mp s nodes) n) = (fst (has_node mp s n) \<and> n \<notin> set nodes))
   \<and> (\<forall>n. n \<notin> set nodes \<longrightarrow> fst (get_node mp (remove_nodes mp s nodes) n) = fst (get_node mp s n))
   \<and> (\<forall>x y. x \<notin> set nodes \<and> y \<notin> set nodes \<longrightarrow>
         fst (get_edge mp (remove_nodes mp s nodes) x y) = fst (get_edge mp s x y))
   \<and> (nx_directed (sgraph (get_graph mp s)) \<or> nx_undirected (sgraph (get_graph mp s)) \<longrightarrow>
        (\<forall>x y. x \<in> set nodes \<and> fst (has_node mp s x) \<longrightarrow>
           fst (get_edge mp (remove_nodes mp s nodes) x y) = None
           \<and> fst (get_edge mp (remove_nodes mp s nodes) y x) = None))
   \<and> nx_node (sgraph (remove_edges mp s edges)) = nx_node (sgraph (get_graph mp s))
   \<and> (\<forall>(x, y) \<in> set edges. \<not> fst (has_edge mp (remove_edges mp s edges) x y))
   \<and> (nx_undirected (sgraph (get_graph mp s)) \<longrightarrow>
        (\<forall>(x, y) \<in> set edges. \<not> fst (has_edge mp (remove_edges mp s edges) y x)))
   \<and> (\<forall>x y. (x, y) \<notin> set edges \<and> (nx_directed (sgraph (get_graph mp s)) \<or> (y, x) \<notin> set edges) \<longrightarrow>
         fst (get_edge mp (remove_edges mp s edges) x y) = fst (get_edge mp s x y))"
proof (intro conjI allI impI)
  assume "\<not> fst (has_node mp s node_id)"
  then show "delete_node mp s node_id =
        logger WARNING (''Node '' @ node_id @ '' not found in the graph for deletion.'') (get_graph mp s)"
    by (simp add: delete_node_def has_node_def Let_def)
next
  show n: "nx_node (sgraph (remove_nodes mp s nodes))
       = filter (\<lambda>(n, a). n \<notin> set nodes) (nx_node (sgraph (get_graph mp s)))"
    by (simp add: remove_nodes_def Let_def nx_node_remove_nodes_loop)
  fix n
  show "fst (has_node mp (remove_nodes mp s nodes) n) = (fst (has_node mp s n) \<and> n \<notin> set nodes)"
    using n by (auto simp: has_node_def Let_def nx_has_node_def remove_nodes_def)
  show "fst (get_node mp (remove_nodes mp s nodes) n) = fst (get_node mp s n)" if "n \<notin> set nodes"
    using n that by (simp add: get_node_def Let_def nx_nodes_get_def remove_nodes_def map_of_filter_keys)
next
  fix x y
  assume "x \<notin> set nodes \<and> y \<notin> set nodes"
  then show "fst (get_edge mp (remove_nodes mp s nodes) x y) = fst (get_edge mp s x y)"
    by (simp add: get_edge_def Let_def remove_nodes_def edges_get_remove_nodes_loop)
next
  fix x y
  assume inv: "nx_directed (sgraph (get_graph mp s)) \<or> nx_undirected (sgraph (get_graph mp s))"
    and x: "x \<in> set nodes \<and> fst (has_node mp s x)"
  have "nx_has_node (sgraph (get_graph mp s)) x" using x by (simp add: has_node_def Let_def)
  then have "nx_edges_get (remove_nodes_loop nodes (sgraph (get_graph mp s))) x y = None
       \<and> nx_edges_get (remove_nodes_loop nodes (sgraph (get_graph mp s))) y x = None"
    using inv x by (intro edges_get_remove_nodes_loop_at) simp_all
  then show "fst (get_edge mp (remove_nodes mp s nodes) x y) = None"
    and "fst (get_edge mp (remove_nodes mp s nodes) y x) = None"
    by (simp_all add: get_edge_def Let_def remove_nodes_def)
next
  show "nx_node (sgraph (remove_edges mp s edges)) = nx_node (sgraph (get_graph mp s))"
    by (simp add: remove_edges_def Let_def nx_node_remove_edges_loop)
next
  have eq: "get_graph mp (remove_edges mp s edges) = remove_edges mp s edges"
    by (simp add: remove_edges_def Let_def)
  have "nx_edges_get (sgraph (remove_edges mp s edges)) x y = None" if "(x, y) \<in> set edges" for x y
    using that by (simp add: remove_edges_def Let_def edges_get_remove_edges_loop_listed)
  then show "\<forall>(x, y) \<in> set edges. \<not> fst (has_edge mp (remove_edges mp s edges) x y)"
    by (auto simp: has_edge_def Let_def eq has_edge_iff)
next
  assume u: "nx_undirected (sgraph (get_graph mp s))"
  have eq: "get_graph mp (remove_edges mp s edges) = remove_edges mp s edges"
    by (simp add: remove_edges_def Let_def)
  have "nx_edges_get (sgraph (remove_edges mp s edges)) y x = None" if "(x, y) \<in> set edges" for x y
    using that edges_get_remove_edges_loop_rev [OF u, of x y edges]
    by (simp add: remove_edges_def Let_def)
  then show "\<forall>(x, y) \<in> set edges. \<not> fst (has_edge mp (remove_edges mp s edges) y x)"
    by (auto simp: has_edge_def Let_def eq has_edge_iff)
next
  fix x y
  assume "(x, y) \<notin> set edges \<and> (nx_directed (sgraph (get_graph mp s)) \<or> (y, x) \<notin> set edges)"
  then show "fst (get_edge mp (remove_edges mp s edges) x y) = fst (get_edge mp s x y)"
    by (simp add: get_edge_def Let_def remove_edges_def edges_get_remove_edges_loop_other)
qed

text \<open>The theorem on the graph \<open>A - B - C\<close>: deleting the absent \<open>Z\<close>, removing \<open>A\<close> and
  the absent \<open>Z\<close>, and removing the edge \<open>B - A\<close> and the absent edge \<open>X - Y\<close>.\<close>

theorem deletion_frame_witness:
  "\<not> fst (has_node False abc_storage ''Z'')
   \<and> delete_node False abc_storage ''Z'' =
       logger WARNING ''Node Z not found in the graph for deletion.'' abc_storage
   \<and> dict_keys (nx_node (sgraph (remove_nodes False abc_storage [''A'', ''Z'']))) = [''B'', ''C'']
   \<and> fst (get_edge False (remove_nodes False abc_storage [''A'', ''Z'']) ''B'' ''C'') = Some []
   \<and> fst (get_edge False (remove_nodes False abc_storage [''A'', ''Z'']) ''B'' ''A'') = None
   \<and> fst (get_edge False (remove_nodes False abc_storage [''A'', ''Z'']) ''A'' ''B'') = None
   \<and> \<not> fst (has_edge False (remove_edges False abc_storage [(''B'', ''A''), (''X'', ''Y'')]) ''B'' ''A'')
   \<and> \<not> fst (has_edge False (remove_edges False abc_storage [(''B'', ''A''), (''X'', ''Y'')]) ''A'' ''B'')
   \<and> fst (get_edge False (remove_edges False abc_storage [(''B'', ''A''), (''X'', ''Y'')]) ''B'' ''C'') = Some []"
proof -
  have g: "get_graph False abc_storage = abc_storage"
    by (simp add: get_graph_clean abc_storage_eq)
  have u: "nx_undirected (sgraph (get_graph False abc_storage))"
    by (simp add: g und_abc)
  have z: "\<not> fst (has_node False abc_storage ''Z'')" "fst (has_node False abc_storage ''A'')"
    by (simp_all add: has_node_def g) (simp_all add: abc_storage_eq nx_has_node_def)
  have e: "fst (get_edge False abc_storage ''B'' ''C'') = Some []"
    by (simp add: get_edge_def g) (simp add: abc_storage_eq nx_edges_get_def)
  show ?thesis
    using deletion_frame [of False abc_storage "''Z''" "[''A'', ''Z'']" "[(''B'', ''A''), (''X'', ''Y'')]"]
      z e u
    by (simp add: g) (simp add: abc_storage_eq)
qed

text \<open>C8 as stated fails: \<open>remove_nodes\<close> of \<open>A\<close> lists no edge, and the edge \<open>B - A\<close> is
  gone after it.\<close>

theorem deletion_frame_counterexample:
  "fst (get_edge False abc_storage ''B'' ''A'') = Some []
   \<and> fst (get_edge False (remove_nodes False abc_storage [''A'']) ''B'' ''A'') = None"
  by (simp add: get_edge_def remove_nodes_def get_graph_def Let_def abc_storage_eq nx_edges_get_def
      nx_has_node_def nx_remove_node_def nx_nbrs_def)

subsection \<open>Edge symmetry\<close>




end
